theory Spec2Isabelle
  imports Main
begin

section \<open>JavaScript strings\<close>

text \<open>
  A JavaScript string is a sequence of UTF-16 code units. A \<^typ>\<open>char\<close> stands for one
  code unit in the range 0..255 (Latin-1, where code unit and code point agree), so
  \<open>length\<close> counts what \<open>.length\<close> counts. The character classes of the regular
  expressions and of \<open>trim\<close>/\<open>parseInt\<close> are written out for that range.
\<close>

definition is_digit :: "char \<Rightarrow> bool" where
  \<comment> \<open>the class \<open>\d\<close>: ASCII digits only\<close>
  "is_digit c = (c \<in> set ''0123456789'')"

definition js_space :: "char \<Rightarrow> bool" where
  \<comment> \<open>the class \<open>\s\<close> (WhiteSpace and LineTerminator): TAB, LF, VT, FF, CR, SP, NBSP\<close>
  "js_space c = (c \<in> set [CHR 0x09, CHR 0x0A, CHR 0x0B, CHR 0x0C, CHR 0x0D, CHR 0x20, CHR 0xA0])"

definition strip_whitespace :: "string \<Rightarrow> string" where
  \<comment> \<open>\<open>s.replace(/\s+/g, '')\<close>\<close>
  "strip_whitespace s = filter (\<lambda>c. \<not> js_space c) s"

definition strip_non_digits :: "string \<Rightarrow> string" where
  \<comment> \<open>\<open>s.replace(/\D/g, '')\<close>\<close>
  "strip_non_digits s = filter is_digit s"

definition js_trim :: "string \<Rightarrow> string" where
  \<comment> \<open>\<open>s.trim()\<close>\<close>
  "js_trim s = rev (dropWhile js_space (rev (dropWhile js_space s)))"

definition digit_val :: "char \<Rightarrow> nat" where
  "digit_val c = of_char c - 48"

definition digits_value :: "string \<Rightarrow> nat" where
  "digits_value ds = foldl (\<lambda>acc c. 10 * acc + digit_val c) 0 ds"

definition parseInt10 :: "string \<Rightarrow> int option" where
  \<comment> \<open>\<open>parseInt(s, 10)\<close>: leading white space is skipped, one sign is read, then the
      longest run of digits; \<open>None\<close> is \<open>NaN\<close>. The value is the exact integer: the
      source compares it with 1 and 12 only, which rounding to a double does not change.\<close>
  "parseInt10 s =
     (let t = dropWhile js_space s;
          neg = (case t of [] \<Rightarrow> False | c # _ \<Rightarrow> c = CHR ''-'');
          u = (case t of [] \<Rightarrow> [] | c # r \<Rightarrow> if c = CHR ''-'' \<or> c = CHR ''+'' then r else t);
          ds = takeWhile is_digit u
      in if ds = [] then None
         else Some (if neg then - int (digits_value ds) else int (digits_value ds)))"

section \<open>Card validation (validateCardForm)\<close>

text \<open>
  The error object is kept as the list of its own properties in insertion order, which is
  the order \<open>Object.keys\<close> and \<open>Object.values\<close> enumerate string keys in.
\<close>

type_synonym CardValidationErrors = "(string \<times> string) list"

fun obj_set :: "(string \<times> string) list \<Rightarrow> string \<Rightarrow> string \<Rightarrow> (string \<times> string) list" where
  \<comment> \<open>\<open>obj[k] = v\<close>: an existing property keeps its place, a new one goes last\<close>
  "obj_set [] k v = [(k, v)]"
| "obj_set ((k', v') # ps) k v = (if k' = k then (k, v) # ps else (k', v') # obj_set ps k v)"

definition obj_keys :: "(string \<times> string) list \<Rightarrow> string list" where
  "obj_keys obj = map fst obj"

definition obj_values :: "(string \<times> string) list \<Rightarrow> string list" where
  "obj_values obj = map snd obj"

definition msg_cardName :: string where
  \<comment> \<open>"Nome no cartao e obrigatorio", with its accented letters\<close>
  "msg_cardName = ''Nome no cart'' @ [CHR 0xE3] @ ''o '' @ [CHR 0xE9] @ '' obrigat'' @ [CHR 0xF3] @ ''rio''"

definition msg_cardNumber :: string where
  \<comment> \<open>"Numero do cartao invalido", with its accented letters\<close>
  "msg_cardNumber = ''N'' @ [CHR 0xFA] @ ''mero do cart'' @ [CHR 0xE3] @ ''o inv'' @ [CHR 0xE1] @ ''lido''"

definition msg_month_required :: string where
  \<comment> \<open>"Mes de validade e obrigatorio", with its accented letters\<close>
  "msg_month_required = ''M'' @ [CHR 0xEA] @ ''s de validade '' @ [CHR 0xE9] @ '' obrigat'' @ [CHR 0xF3] @ ''rio''"

definition msg_month_invalid :: string where
  \<comment> \<open>"Mes invalido (1-12)", with its accented letters\<close>
  "msg_month_invalid = ''M'' @ [CHR 0xEA] @ ''s inv'' @ [CHR 0xE1] @ ''lido (1-12)''"

definition msg_year_required :: string where
  \<comment> \<open>"Ano de validade e obrigatorio", with its accented letters\<close>
  "msg_year_required = ''Ano de validade '' @ [CHR 0xE9] @ '' obrigat'' @ [CHR 0xF3] @ ''rio''"

definition msg_year_invalid :: string where
  \<comment> \<open>"Ano invalido (AA)", with its accented letter\<close>
  "msg_year_invalid = ''Ano inv'' @ [CHR 0xE1] @ ''lido (AA)''"

definition msg_cvv_invalid :: string where
  \<comment> \<open>"CVV invalido", with its accented letter\<close>
  "msg_cvv_invalid = ''CVV inv'' @ [CHR 0xE1] @ ''lido''"

definition msg_cvv_zero :: string where
  \<comment> \<open>"CVV invalido (nao pode ser 000)", with its accented letters\<close>
  "msg_cvv_zero = ''CVV inv'' @ [CHR 0xE1] @ ''lido (n'' @ [CHR 0xE3] @ ''o pode ser 000)''"

text \<open>The five checks of \<open>validateCardForm\<close>, each giving the message it stores, if any.\<close>

definition check_cardName :: "string \<Rightarrow> string option" where
  \<comment> \<open>\<open>if (!cardName.trim())\<close>\<close>
  "check_cardName cardName = (if js_trim cardName = [] then Some msg_cardName else None)"

definition check_cardNumber :: "string \<Rightarrow> string option" where
  \<comment> \<open>\<open>if (cleanCardNumber.length < 16)\<close>\<close>
  "check_cardNumber cleanCardNumber =
     (if length cleanCardNumber < 16 then Some msg_cardNumber else None)"

definition check_expiryMonth :: "string \<Rightarrow> string option" where
  "check_expiryMonth expiryMonth =
     (if expiryMonth = [] then Some msg_month_required
      else (case parseInt10 expiryMonth of
              None \<Rightarrow> Some msg_month_invalid
            | Some month \<Rightarrow> if month < 1 \<or> month > 12 then Some msg_month_invalid else None))"

definition check_expiryYear :: "string \<Rightarrow> string option" where
  "check_expiryYear expiryYear =
     (if expiryYear = [] then Some msg_year_required
      else if length expiryYear \<noteq> 2 then Some msg_year_invalid
      else None)"

definition check_cvv :: "string \<Rightarrow> string option" where
  "check_cvv cvv =
     (if cvv = [] \<or> length cvv \<noteq> 3 then Some msg_cvv_invalid
      else if cvv = ''000'' then Some msg_cvv_zero
      else None)"

definition store_error :: "CardValidationErrors \<Rightarrow> string \<Rightarrow> string option \<Rightarrow> CardValidationErrors" where
  \<comment> \<open>\<open>errors.k = msg\<close> when the check failed, nothing otherwise\<close>
  "store_error errors k r = (case r of None \<Rightarrow> errors | Some msg \<Rightarrow> obj_set errors k msg)"

definition validateCardForm ::
  "string \<Rightarrow> string \<Rightarrow> string \<Rightarrow> string \<Rightarrow> string \<Rightarrow> CardValidationErrors option" where
  "validateCardForm cardName cardNumber expiryMonth expiryYear cvv =
     (let errors0 = [];
          cleanCardNumber = strip_whitespace cardNumber;
          errors1 = store_error errors0 ''cardName'' (check_cardName cardName);
          errors2 = store_error errors1 ''cardNumber'' (check_cardNumber cleanCardNumber);
          errors3 = store_error errors2 ''expiryMonth'' (check_expiryMonth expiryMonth);
          errors4 = store_error errors3 ''expiryYear'' (check_expiryYear expiryYear);
          errors5 = store_error errors4 ''cvv'' (check_cvv cvv)
      in if length (obj_keys errors5) > 0 then Some errors5 else None)"

section \<open>Card number masking (maskCardNumber)\<close>

definition lookahead_digits :: "nat \<Rightarrow> string \<Rightarrow> bool" where
  \<comment> \<open>the lookahead \<open>(?=\d{n})\<close> at the start of \<open>cs\<close>\<close>
  "lookahead_digits n cs = (n \<le> length cs \<and> list_all is_digit (take n cs))"

fun maskCardNumber :: "string \<Rightarrow> string" where
  \<comment> \<open>\<open>cardNumber.replace(/\d(?=\d{4})/g, '*')\<close>: every match is one character long and
      the lookahead reads the original text, so each position is decided on its own\<close>
  "maskCardNumber [] = []"
| "maskCardNumber (c # cs) =
     (if is_digit c \<and> lookahead_digits 4 cs then CHR ''*'' else c) # maskCardNumber cs"


section \<open>Card payment pipeline (processCardPayment, handleCardFormSubmit)\<close>

record CardFormData =
  cardName :: string
  cardNumber :: string
  expiryMonth :: string
  expiryYear :: string
  cvv :: string

definition validateCardData :: "CardFormData \<Rightarrow> CardValidationErrors option" where
  \<comment> \<open>Modelled from the spec: \<open>validateCardData\<close> of \<open>./validators\<close> is not among the
      sources. Section 4.3 has the processor run the card-field validation, which is
      \<open>validateCardForm\<close> on the fields of the form.\<close>
  "validateCardData cardData =
     validateCardForm (cardName cardData) (cardNumber cardData) (expiryMonth cardData)
       (expiryYear cardData) (cvv cardData)"

text \<open>
  The gateway settings. Every property may be absent (\<open>None\<close> is \<open>undefined\<close>): the
  fallback object of \<open>handleCardFormSubmit\<close> has no \<open>isEnabled\<close>, and the processor
  reads the settings through \<open>?.\<close>.
\<close>

record AsaasSettings =
  isEnabled :: "bool option"
  manualCardProcessing :: "bool option"
  manualCardStatus :: "string option"
  allowCreditCard :: "bool option"
  allowPix :: "bool option"
  sandboxMode :: "bool option"

definition truthy :: "bool option \<Rightarrow> bool" where
  \<comment> \<open>JavaScript truthiness of a boolean that may be \<open>undefined\<close>\<close>
  "truthy b = (b = Some True)"

definition opt_chain :: "'s option \<Rightarrow> ('s \<Rightarrow> 'a option) \<Rightarrow> 'a option" where
  \<comment> \<open>\<open>settings?.f\<close>\<close>
  "opt_chain s f = (case s of None \<Rightarrow> None | Some x \<Rightarrow> f x)"

definition fallback_settings :: AsaasSettings where
  \<comment> \<open>the object literal after \<open>settings ||\<close> in \<open>handleCardFormSubmit\<close>\<close>
  "fallback_settings =
     \<lparr>isEnabled = None, manualCardProcessing = Some False, manualCardStatus = Some ''ANALYSIS'',
      allowCreditCard = Some True, allowPix = Some True, sandboxMode = Some True\<rparr>"

datatype collaborator = ProcessManual | ProcessAutomatic | GatewayCharge | Toast

text \<open>
  What the form shows (the state of \<open>useCardPaymentStatus\<close>) and the log of the
  collaborators called so far, oldest first.
\<close>

record ui =
  isSubmitting :: bool
  error :: string
  calls :: "collaborator list"

datatype 'a outcome = Returned 'a | Threw 'a

definition msg_check_card :: string where
  \<comment> \<open>"Verifique os dados do cartao", with its accented letter\<close>
  "msg_check_card = ''Verifique os dados do cart'' @ [CHR 0xE3] @ ''o''"

definition msg_general_error :: string where
  "msg_general_error = ''Erro ao processar pagamento. Por favor, tente novamente.''"

definition msg_submit_failed :: string where
  "msg_submit_failed = ''Falha ao processar o pagamento. Por favor, tente novamente.''"

definition first_error :: "CardValidationErrors \<Rightarrow> string" where
  \<comment> \<open>\<open>Object.values(validationErrors)[0] || '...'\<close>: an
      absent first value and the empty string are both falsy\<close>
  "first_error errs =
     (case obj_values errs of [] \<Rightarrow> msg_check_card
      | v # _ \<Rightarrow> if v = [] then msg_check_card else v)"

definition processManual :: "string \<Rightarrow> ui \<Rightarrow> ui outcome" where
  \<comment> \<open>Modelled from the spec: \<open>processManual\<close> of \<open>./manualProcessor\<close> is not among the
      sources. Section 4.3, ManualReview: the gateway is not contacted. Only the calls it
      makes are modelled.\<close>
  "processManual brand u = Returned (u\<lparr>calls := calls u @ [ProcessManual]\<rparr>)"

definition processAutomatic :: "string \<Rightarrow> ui \<Rightarrow> ui outcome" where
  \<comment> \<open>Modelled from the spec: \<open>processAutomatic\<close> of \<open>./automaticProcessor\<close> is not among
      the sources. Section 4.3, Automatic: the gateway collaborator is invoked with the card
      data. Only the calls it makes are modelled.\<close>
  "processAutomatic brand u = Returned (u\<lparr>calls := calls u @ [ProcessAutomatic, GatewayCharge]\<rparr>)"

definition processCardPayment ::
  "(string \<Rightarrow> ui \<Rightarrow> ui outcome) \<Rightarrow> (string \<Rightarrow> ui \<Rightarrow> ui outcome) \<Rightarrow> (string \<Rightarrow> string option) \<Rightarrow>
   CardFormData \<Rightarrow> AsaasSettings option \<Rightarrow> ui \<Rightarrow> ui outcome" where
  \<comment> \<open>\<open>manual\<close> and \<open>automatic\<close> are the two processors and \<open>detectCardBrand\<close> the brand
      detection (\<open>None\<close>: it throws), none of them among the sources. A processor's result
      is returned without \<open>await\<close>, so its failure passes to the caller.\<close>
  "processCardPayment manual automatic detectCardBrand cardData settings u =
     (case validateCardData cardData of
        Some validationErrors \<Rightarrow> Returned (u\<lparr>error := first_error validationErrors\<rparr>)
      | None \<Rightarrow>
          (let u1 = u\<lparr>error := [], isSubmitting := True\<rparr> in
           case detectCardBrand (cardNumber cardData) of
             None \<Rightarrow>
               Returned (u1\<lparr>error := msg_general_error, calls := calls u1 @ [Toast],
                            isSubmitting := False\<rparr>)
           | Some brand \<Rightarrow>
               if truthy (opt_chain settings manualCardProcessing) \<or>
                  \<not> truthy (opt_chain settings isEnabled)
               then manual brand u1
               else automatic brand u1))"

definition handleCardFormSubmit ::
  "(string \<Rightarrow> ui \<Rightarrow> ui outcome) \<Rightarrow> (string \<Rightarrow> ui \<Rightarrow> ui outcome) \<Rightarrow> (string \<Rightarrow> string option) \<Rightarrow>
   AsaasSettings option \<Rightarrow> CardFormData \<Rightarrow> ui \<Rightarrow> ui" where
  \<comment> \<open>\<open>settings\<close> is what \<open>useAsaas\<close> gives, \<open>None\<close> when there is none\<close>
  "handleCardFormSubmit manual automatic detectCardBrand settings cardData u =
     (let u1 = u\<lparr>isSubmitting := True\<rparr>;
          settings' = (case settings of Some s \<Rightarrow> s | None \<Rightarrow> fallback_settings)
      in case processCardPayment manual automatic detectCardBrand cardData (Some settings') u1 of
           Returned u2 \<Rightarrow> u2
         | Threw u2 \<Rightarrow>
             u2\<lparr>error := msg_submit_failed, isSubmitting := False, calls := calls u2 @ [Toast]\<rparr>)"

section \<open>Customer data (prepareCustomerData)\<close>

record FormState =
  fullName :: string
  email :: string
  cpf :: string
  phone :: string
  street :: string
  number :: string
  complement :: string
  neighborhood :: string
  city :: string
  state :: string
  cep :: string

record Address =
  addr_street :: string
  addr_number :: string
  addr_complement :: string
  addr_neighborhood :: string
  addr_city :: string
  addr_state :: string
  postalCode :: string

record CustomerData =
  cust_name :: string
  cust_email :: string
  cust_cpf :: string
  cust_phone :: string
  address :: "Address option"

definition prepareCustomerData :: "FormState \<Rightarrow> CustomerData" where
  \<comment> \<open>the fields of \<open>CustomerData\<close> and of its address carry a prefix here, their names
      being those of the form's fields; \<open>formState.street ? {...} : undefined\<close> tests for
      the empty string\<close>
  "prepareCustomerData formState =
     \<lparr>cust_name = fullName formState,
      cust_email = email formState,
      cust_cpf = cpf formState,
      cust_phone = phone formState,
      address =
        (if street formState \<noteq> [] then
           Some \<lparr>addr_street = street formState,
                 addr_number = number formState,
                 addr_complement = complement formState,
                 addr_neighborhood = neighborhood formState,
                 addr_city = city formState,
                 addr_state = state formState,
                 postalCode = strip_non_digits (cep formState)\<rparr>
         else None)\<rparr>"


section \<open>Order creation (createOrder of useCheckoutContainerOrder)\<close>

text \<open>
  JavaScript runs one task at a time: an \<open>async\<close> function runs without interruption up
  to its first \<open>await\<close>, and a timer callback runs as a task of its own. An invocation is
  therefore a sequence of atomic steps: the part before the \<open>await\<close>, the part after it,
  and the callbacks it has scheduled. Each step is a function on the state shared by all
  invocations: the module-level registry and, for every mounted instance of the hook
  (numbered by \<open>nat\<close>), its refs and its React state. A function of the hook reads the
  React state as the render that made the function captured it, which may lag behind the
  setter: the value it reads is given with each call.
\<close>

datatype 'e attempt = Rejected 'e | InFlight

datatype order_error =
    ProcessingInProgress \<comment> \<open>"Processing in progress. Please wait."\<close>
  | OrderAlreadyCreated \<comment> \<open>"Order already created with this payment ID"\<close>
  | AlreadyProcessedGlobally \<comment> \<open>"This payment is already being processed"\<close>
  | ValidationFailed string \<comment> \<open>the message of \<open>validateCustomerData\<close>\<close>

fun is_duplicate :: "order_error \<Rightarrow> bool" where
  "is_duplicate (ValidationFailed _) = False"
| "is_duplicate _ = True"

record hook_state =
  isProcessing :: bool
  processingRef :: bool
  orderCreatedRef :: "string option"

record checkout_world =
  globalPaymentsInProgress :: "string \<rightharpoonup> bool"
  hooks :: "nat \<Rightarrow> hook_state"
  serviceCalls :: "string list" \<comment> \<open>payment ids handed to \<open>createOrderService\<close>, oldest first\<close>
  cleanupTimers :: "(nat \<times> string) list" \<comment> \<open>pending callbacks of the \<open>finally\<close> block\<close>

definition schedule_cleanup :: "checkout_world \<Rightarrow> nat \<Rightarrow> string \<Rightarrow> checkout_world" where
  \<comment> \<open>the \<open>finally\<close> block: \<open>setTimeout(..., 2000)\<close>\<close>
  "schedule_cleanup w i paymentId = w\<lparr>cleanupTimers := cleanupTimers w @ [(i, paymentId)]\<rparr>"

definition createOrder ::
  "(CustomerData \<Rightarrow> string option) \<Rightarrow> FormState \<Rightarrow> checkout_world \<Rightarrow> nat \<Rightarrow> bool \<Rightarrow> string \<Rightarrow>
   order_error attempt \<times> checkout_world" where
  \<comment> \<open>\<open>createOrder\<close> of instance \<open>i\<close> up to the \<open>await\<close> of \<open>createOrderService\<close>;
      \<open>isProcessingSeen\<close> is the \<open>isProcessing\<close> that the called function captured.
      \<open>validateCustomerData\<close> is not among the sources: it gives the message of the first
      invalid field, or \<open>None\<close>; the empty message is falsy, as \<open>None\<close> is. A rejected
      invocation has run \<open>catch\<close> and \<open>finally\<close>.\<close>
  "createOrder validateCustomerData formState w i isProcessingSeen paymentId =
     (let h = hooks w i in
      if isProcessingSeen \<or> processingRef h then
        (Rejected ProcessingInProgress, schedule_cleanup w i paymentId)
      else if orderCreatedRef h = Some paymentId then
        (Rejected OrderAlreadyCreated, schedule_cleanup w i paymentId)
      else if globalPaymentsInProgress w paymentId \<noteq> None then
        (Rejected AlreadyProcessedGlobally, schedule_cleanup w i paymentId)
      else
        (let w1 = w\<lparr>hooks := (hooks w)(i := h\<lparr>isProcessing := True, processingRef := True\<rparr>),
                     globalPaymentsInProgress := (globalPaymentsInProgress w)(paymentId \<mapsto> True)\<rparr>;
             customerData = prepareCustomerData formState;
             proceed = (InFlight, w1\<lparr>serviceCalls := serviceCalls w1 @ [paymentId]\<rparr>)
         in case validateCustomerData customerData of
              None \<Rightarrow> proceed
            | Some validationError \<Rightarrow>
                if validationError = [] then proceed
                else (Rejected (ValidationFailed validationError),
                      schedule_cleanup w1 i paymentId)))"

definition createOrder_settled :: "checkout_world \<Rightarrow> nat \<Rightarrow> string \<Rightarrow> bool \<Rightarrow> checkout_world" where
  \<comment> \<open>\<open>createOrder\<close> after the \<open>await\<close>: \<open>ok\<close> when \<open>createOrderService\<close> gave an order\<close>
  "createOrder_settled w i paymentId ok =
     schedule_cleanup
       (if ok then w\<lparr>hooks := (hooks w)(i := (hooks w i)\<lparr>orderCreatedRef := Some paymentId\<rparr>)\<rparr>
        else w) i paymentId"

definition cleanup_timer :: "checkout_world \<Rightarrow> nat \<Rightarrow> string \<Rightarrow> checkout_world" where
  \<comment> \<open>the callback scheduled by the \<open>finally\<close> block\<close>
  "cleanup_timer w i paymentId =
     w\<lparr>hooks := (hooks w)(i := (hooks w i)\<lparr>isProcessing := False, processingRef := False\<rparr>),
       globalPaymentsInProgress :=
         (if paymentId \<noteq> [] then (globalPaymentsInProgress w)(paymentId := None)
          else globalPaymentsInProgress w),
       cleanupTimers := remove1 (i, paymentId) (cleanupTimers w)\<rparr>"

definition safety_timeout :: "checkout_world \<Rightarrow> nat \<Rightarrow> checkout_world" where
  \<comment> \<open>the callback of the effect, 30 seconds after \<open>isProcessing\<close> became true\<close>
  "safety_timeout w i =
     w\<lparr>hooks := (hooks w)(i := (hooks w i)\<lparr>isProcessing := False, processingRef := False\<rparr>)\<rparr>"

datatype checkout_step =
    Invoke nat bool \<comment> \<open>instance \<open>i\<close> calls \<open>createOrder\<close>, which has captured this \<open>isProcessing\<close>\<close>
  | Settle nat bool \<comment> \<open>the \<open>await\<close> of an invocation of instance \<open>i\<close> ends, with an order or not\<close>

fun createOrder_steps ::
  "(CustomerData \<Rightarrow> string option) \<Rightarrow> FormState \<Rightarrow> checkout_world \<Rightarrow> checkout_step list \<Rightarrow> string \<Rightarrow>
   order_error attempt list \<times> checkout_world" where
  \<comment> \<open>invocations with one payment id and the ends of their \<open>await\<close>s, in the order they
      run, before any timer callback runs; the attempts of the invocations are collected\<close>
  "createOrder_steps v fs w [] paymentId = ([], w)"
| "createOrder_steps v fs w (Invoke i seen # steps) paymentId =
     (let (r, w1) = createOrder v fs w i seen paymentId;
          (rs, w2) = createOrder_steps v fs w1 steps paymentId
      in (r # rs, w2))"
| "createOrder_steps v fs w (Settle i ok # steps) paymentId =
     createOrder_steps v fs (createOrder_settled w i paymentId ok) steps paymentId"

fun invocations :: "checkout_step list \<Rightarrow> nat" where
  "invocations [] = 0"
| "invocations (Invoke i seen # steps) = Suc (invocations steps)"
| "invocations (Settle i ok # steps) = invocations steps"

definition checkout_init :: checkout_world where
  "checkout_init =
     \<lparr>globalPaymentsInProgress = Map.empty,
      hooks = (\<lambda>_. \<lparr>isProcessing = False, processingRef = False, orderCreatedRef = None\<rparr>),
      serviceCalls = [], cleanupTimers = []\<rparr>"

section \<open>Payment wrapper (handleOrderCreation of usePaymentWrapper)\<close>

fun decimal :: "nat \<Rightarrow> string" where
  \<comment> \<open>a number in a template literal\<close>
  "decimal n =
     (if n < 10 then [char_of (48 + n)] else decimal (n div 10) @ [char_of (48 + n mod 10)])"

declare decimal.simps [simp del]

datatype order_status = Pending | Confirmed

datatype wrapper_error =
    AlreadyProcessed string \<comment> \<open>"A payment with ID ... is already being processed"\<close>
  | WrapperBusy \<comment> \<open>"Payment processing in progress, please wait"\<close>

record wrapper_hook =
  isProcessingRef :: bool
  localProcessedPaymentIds :: "string set"

record wrapper_world =
  processedPaymentIds :: "string set"
  wrappers :: "nat \<Rightarrow> wrapper_hook"
  createOrderCalls :: "(string \<times> order_status) list" \<comment> \<open>calls of \<open>createOrder\<close>, oldest first\<close>
  awaiting :: "nat \<Rightarrow> nat" \<comment> \<open>per instance, the calls waiting for \<open>createOrder\<close>\<close>
  resetTimers :: "nat \<Rightarrow> nat" \<comment> \<open>per instance, the pending callbacks of \<open>finally\<close>\<close>

definition safePaymentId :: "string \<Rightarrow> nat \<Rightarrow> string" where
  \<comment> \<open>\<open>paymentId || `payment_${Date.now()}`\<close>\<close>
  "safePaymentId paymentId now = (if paymentId \<noteq> [] then paymentId else ''payment_'' @ decimal now)"

definition handleOrderCreation ::
  "wrapper_world \<Rightarrow> nat \<Rightarrow> string \<Rightarrow> order_status \<Rightarrow> nat \<Rightarrow> wrapper_error attempt \<times> wrapper_world" where
  \<comment> \<open>\<open>handleOrderCreation\<close> of instance \<open>i\<close> up to the \<open>await\<close> of \<open>createOrder\<close>; \<open>now\<close> is
      \<open>Date.now()\<close>. Both checks throw before the \<open>try\<close>, so a rejected call schedules
      nothing. A status of type \<open>'pending' | 'confirmed'\<close> is its own normal form.\<close>
  "handleOrderCreation w i paymentId status now =
     (let safe = safePaymentId paymentId now; h = wrappers w i in
      if safe \<in> processedPaymentIds w \<or> safe \<in> localProcessedPaymentIds h then
        (Rejected (AlreadyProcessed safe), w)
      else if isProcessingRef h then (Rejected WrapperBusy, w)
      else
        (InFlight,
         w\<lparr>wrappers := (wrappers w)(i := h\<lparr>isProcessingRef := True,
               localProcessedPaymentIds := insert safe (localProcessedPaymentIds h)\<rparr>),
           processedPaymentIds := insert safe (processedPaymentIds w),
           createOrderCalls := createOrderCalls w @ [(safe, status)],
           awaiting := (awaiting w)(i := Suc (awaiting w i))\<rparr>))"

definition handleOrderCreation_settled :: "wrapper_world \<Rightarrow> nat \<Rightarrow> wrapper_world" where
  \<comment> \<open>\<open>createOrder\<close> has given an order or thrown: \<open>finally\<close> schedules the reset\<close>
  "handleOrderCreation_settled w i =
     (if awaiting w i = 0 then w
      else w\<lparr>awaiting := (awaiting w)(i := awaiting w i - 1),
             resetTimers := (resetTimers w)(i := Suc (resetTimers w i))\<rparr>)"

definition reset_timer :: "wrapper_world \<Rightarrow> nat \<Rightarrow> wrapper_world" where
  \<comment> \<open>the callback of \<open>setTimeout(..., 1000)\<close>: the flag is reset, the ids are kept\<close>
  "reset_timer w i =
     (if resetTimers w i = 0 then w
      else w\<lparr>wrappers := (wrappers w)(i := (wrappers w i)\<lparr>isProcessingRef := False\<rparr>),
             resetTimers := (resetTimers w)(i := resetTimers w i - 1)\<rparr>)"

datatype wrapper_event =
    HCall nat string order_status nat
  | HSettled nat
  | HTimer nat

fun wrapper_step :: "wrapper_world \<Rightarrow> wrapper_event \<Rightarrow> wrapper_world" where
  "wrapper_step w (HCall i paymentId status now) = snd (handleOrderCreation w i paymentId status now)"
| "wrapper_step w (HSettled i) = handleOrderCreation_settled w i"
| "wrapper_step w (HTimer i) = reset_timer w i"

definition wrapper_run :: "wrapper_world \<Rightarrow> wrapper_event list \<Rightarrow> wrapper_world" where
  "wrapper_run w evs = foldl wrapper_step w evs"

definition wrapper_init :: wrapper_world where
  "wrapper_init =
     \<lparr>processedPaymentIds = {},
      wrappers = (\<lambda>_. \<lparr>isProcessingRef = False, localProcessedPaymentIds = {}\<rparr>),
      createOrderCalls = [], awaiting = (\<lambda>_. 0), resetTimers = (\<lambda>_. 0)\<rparr>"

section \<open>Order store access (addOrder of useOrderOperations)\<close>

datatype add_error =
    PendingOrderExists \<comment> \<open>the React state \<open>pendingOrder\<close> is seen set\<close>
  | PaymentPending string \<comment> \<open>the id is in \<open>pendingOrderIds\<close>\<close>
  | PaymentPendingHere string \<comment> \<open>the id is the instance's \<open>processingRef\<close>\<close>

record orders_hook =
  pendingOrder :: bool
  orderProcessingRef :: "string option" \<comment> \<open>\<open>processingRef\<close> of \<open>useOrderOperations\<close>\<close>

record orders_world =
  pendingOrderIds :: "string set"
  orderHooks :: "nat \<Rightarrow> orders_hook"
  storeCalls :: "string list" \<comment> \<open>\<open>orderData.paymentId\<close> of every order handed to the store\<close>

definition addOrder ::
  "orders_world \<Rightarrow> nat \<Rightarrow> bool \<Rightarrow> string \<Rightarrow> nat \<Rightarrow> add_error attempt \<times> orders_world" where
  \<comment> \<open>\<open>addOrder\<close> of instance \<open>i\<close> up to the \<open>await\<close> of the store's \<open>createOrder\<close>;
      \<open>pendingOrderSeen\<close> is the \<open>pendingOrder\<close> that the called function captured,
      \<open>orderPaymentId\<close> is \<open>orderData.paymentId\<close> (empty when absent), \<open>now\<close> is \<open>Date.now()\<close>\<close>
  "addOrder w i pendingOrderSeen orderPaymentId now =
     (let h = orderHooks w i in
      if pendingOrderSeen then (Rejected PendingOrderExists, w)
      else
        (let paymentId = (if orderPaymentId \<noteq> [] then orderPaymentId else ''order_'' @ decimal now) in
         if paymentId \<in> pendingOrderIds w then (Rejected (PaymentPending paymentId), w)
         else if orderProcessingRef h = Some paymentId then (Rejected (PaymentPendingHere paymentId), w)
         else
           (InFlight,
            w\<lparr>orderHooks := (orderHooks w)(i := h\<lparr>pendingOrder := True,
                  orderProcessingRef := Some paymentId\<rparr>),
              pendingOrderIds := insert paymentId (pendingOrderIds w),
              storeCalls := storeCalls w @ [orderPaymentId]\<rparr>)))"

definition addOrder_timer :: "orders_world \<Rightarrow> nat \<Rightarrow> orders_world" where
  \<comment> \<open>the callback of \<open>setTimeout(..., 1000)\<close> in \<open>finally\<close>; the removal from
      \<open>pendingOrderIds\<close> is commented out in the source\<close>
  "addOrder_timer w i =
     w\<lparr>orderHooks := (orderHooks w)(i := (orderHooks w i)\<lparr>pendingOrder := False,
          orderProcessingRef := None\<rparr>)\<rparr>"

datatype orders_event =
    ACall nat bool string nat
  | ATimer nat

fun orders_step :: "orders_world \<Rightarrow> orders_event \<Rightarrow> orders_world" where
  "orders_step w (ACall i seen orderPaymentId now) = snd (addOrder w i seen orderPaymentId now)"
| "orders_step w (ATimer i) = addOrder_timer w i"

definition orders_run :: "orders_world \<Rightarrow> orders_event list \<Rightarrow> orders_world" where
  \<comment> \<open>a callback may run at any point here, whether scheduled or not: more runs than the
      program has\<close>
  "orders_run w evs = foldl orders_step w evs"

definition orders_init :: orders_world where
  "orders_init =
     \<lparr>pendingOrderIds = {},
      orderHooks = (\<lambda>_. \<lparr>pendingOrder = False, orderProcessingRef = None\<rparr>),
      storeCalls = []\<rparr>"

section \<open>Derived notions used in the statements\<close>

definition spec_card_accepted :: "string \<Rightarrow> string \<Rightarrow> string \<Rightarrow> string \<Rightarrow> string \<Rightarrow> bool" where
  \<comment> \<open>The acceptance condition in the specification's words, to be compared with
      \<open>validateCardForm\<close>: name non-empty, stripped number of 16 to 19 digits, month an
      integer in 1..12, year of 2 characters, CVV of 3 digits other than 000.\<close>
  "spec_card_accepted nm num mm yy cv =
     (nm \<noteq> [] \<and>
      list_all is_digit (strip_whitespace num) \<and>
      16 \<le> length (strip_whitespace num) \<and> length (strip_whitespace num) \<le> 19 \<and>
      (case parseInt10 mm of None \<Rightarrow> False | Some m \<Rightarrow> 1 \<le> m \<and> m \<le> 12) \<and>
      length yy = 2 \<and>
      length cv = 3 \<and> list_all is_digit cv \<and> cv \<noteq> ''000'')"

text \<open>
  When a field of the card form is invalid, stated on the input: the name is blank, the
  number has fewer than 16 characters once the white space is removed, the month does not
  parse to an integer from 1 to 12, the year does not have 2 characters, the CVV does not
  have 3 characters or is 000.
\<close>

definition name_fails :: "CardFormData \<Rightarrow> bool" where
  "name_fails cardData = list_all js_space (cardName cardData)"

definition number_fails :: "CardFormData \<Rightarrow> bool" where
  "number_fails cardData = (length (strip_whitespace (cardNumber cardData)) < 16)"

definition month_fails :: "CardFormData \<Rightarrow> bool" where
  "month_fails cardData =
     (case parseInt10 (expiryMonth cardData) of None \<Rightarrow> True | Some m \<Rightarrow> m < 1 \<or> 12 < m)"

definition year_fails :: "CardFormData \<Rightarrow> bool" where
  "year_fails cardData = (length (expiryYear cardData) \<noteq> 2)"

definition cvv_fails :: "CardFormData \<Rightarrow> bool" where
  "cvv_fails cardData = (length (cvv cardData) \<noteq> 3 \<or> cvv cardData = ''000'')"

definition first_failing_field :: "CardFormData \<Rightarrow> (string \<times> string) option" where
  \<comment> \<open>the first invalid field in the order name, number, month, year, CVV, with the message
      for it; \<open>None\<close> when no field is invalid\<close>
  "first_failing_field cardData =
     (if name_fails cardData then Some (''cardName'', msg_cardName)
      else if number_fails cardData then Some (''cardNumber'', msg_cardNumber)
      else if month_fails cardData then
        Some (''expiryMonth'',
              if expiryMonth cardData = [] then msg_month_required else msg_month_invalid)
      else if year_fails cardData then
        Some (''expiryYear'',
              if expiryYear cardData = [] then msg_year_required else msg_year_invalid)
      else if cvv_fails cardData then
        Some (''cvv'', if length (cvv cardData) \<noteq> 3 then msg_cvv_invalid else msg_cvv_zero)
      else None)"

fun spec_maskCardNumber :: "string \<Rightarrow> string" where
  \<comment> \<open>Masking in the words of the claim, to be compared with \<open>maskCardNumber\<close>: a digit
      becomes \<open>*\<close> when at least four more digits come after it, wherever they stand.\<close>
  "spec_maskCardNumber [] = []"
| "spec_maskCardNumber (c # cs) =
     (if is_digit c \<and> 4 \<le> length (filter is_digit cs) then CHR ''*'' else c) #
     spec_maskCardNumber cs"

definition state_of :: "'a outcome \<Rightarrow> 'a" where
  "state_of r = (case r of Returned u \<Rightarrow> u | Threw u \<Rightarrow> u)"

definition gateway_calls :: "ui \<Rightarrow> nat" where
  "gateway_calls u = length (filter (\<lambda>c. c = GatewayCharge) (calls u))"

definition store_inv :: "string \<Rightarrow> orders_world \<Rightarrow> bool" where
  \<comment> \<open>the store has been handed the id at most once, and only an id that is in the
      registry of \<open>addOrder\<close>\<close>
  "store_inv pid w =
     (count_list (storeCalls w) pid \<le> 1 \<and>
      (pid \<in> set (storeCalls w) \<longrightarrow> pid \<in> pendingOrderIds w))"

definition wrapper_inv :: "wrapper_world \<Rightarrow> bool" where
  \<comment> \<open>an instance's flag is set exactly while it has one call waiting or one reset pending,
      and it never has more\<close>
  "wrapper_inv w =
     (\<forall>i. awaiting w i + resetTimers w i \<le> 1 \<and>
          (isProcessingRef (wrappers w i) \<longleftrightarrow> awaiting w i + resetTimers w i = 1))"

section \<open>Example inputs\<close>

definition example_card :: CardFormData where
  "example_card =
     \<lparr>cardName = ''Ana'', cardNumber = ''4111 1111 1111 1111'', expiryMonth = ''12'',
      expiryYear = ''30'', cvv = ''123''\<rparr>"

definition example_form :: FormState where
  "example_form =
     \<lparr>fullName = ''Ana Souza'', email = ''ana@example.com'', cpf = ''123.456.789-09'',
      phone = ''11999990000'', street = ''Rua A'', number = ''10'', complement = [],
      neighborhood = ''Centro'', city = ''Sao Paulo'', state = ''SP'', cep = ''01310-100''\<rparr>"

definition example_ui :: ui where
  "example_ui = \<lparr>isSubmitting = False, error = [], calls = []\<rparr>"

definition detect_visa :: "string \<Rightarrow> string option" where
  "detect_visa n = Some ''visa''"

definition accept_customer :: "CustomerData \<Rightarrow> string option" where
  "accept_customer c = None"

section \<open>Lemmas\<close>

subsection \<open>Card validation\<close>

lemma js_trim_empty_iff: "js_trim s = [] \<longleftrightarrow> list_all js_space s"
proof
  assume "js_trim s = []"
  then have all: "\<forall>x \<in> set (dropWhile js_space s). js_space x"
    by (simp add: js_trim_def)
  have "dropWhile js_space s = []"
  proof (rule ccontr)
    assume ne: "dropWhile js_space s \<noteq> []"
    then have "\<not> js_space (hd (dropWhile js_space s))" by (rule hd_dropWhile)
    moreover from ne all have "js_space (hd (dropWhile js_space s))" by simp
    ultimately show False by simp
  qed
  then show "list_all js_space s" by (simp add: list_all_iff)
next
  assume "list_all js_space s"
  then have d: "dropWhile js_space s = []" by (simp add: list_all_iff)
  show "js_trim s = []" unfolding js_trim_def d by simp
qed

lemma check_cardName_None_iff: "check_cardName nm = None \<longleftrightarrow> \<not> list_all js_space nm"
  by (simp add: check_cardName_def js_trim_empty_iff)

lemma check_cardNumber_None_iff: "check_cardNumber n = None \<longleftrightarrow> 16 \<le> length n"
  by (auto simp: check_cardNumber_def)

lemma parseInt10_Nil: "parseInt10 [] = None"
  by (simp add: parseInt10_def)

lemma check_expiryMonth_None_iff:
  "check_expiryMonth mm = None \<longleftrightarrow> (\<exists>m. parseInt10 mm = Some m \<and> 1 \<le> m \<and> m \<le> 12)"
  by (cases "mm = []") (auto simp: check_expiryMonth_def parseInt10_Nil split: option.splits)

lemma check_expiryYear_None_iff: "check_expiryYear yy = None \<longleftrightarrow> length yy = 2"
  by (auto simp: check_expiryYear_def)

lemma check_cvv_None_iff: "check_cvv cv = None \<longleftrightarrow> length cv = 3 \<and> cv \<noteq> ''000''"
  by (auto simp: check_cvv_def)

lemma obj_set_not_Nil: "obj_set ps k v \<noteq> []"
  by (cases ps) (auto split: if_splits)

lemma store_error_Nil_iff: "store_error errs k r = [] \<longleftrightarrow> errs = [] \<and> r = None"
  by (cases r) (simp_all add: store_error_def obj_set_not_Nil)

lemma validateCardForm_None_iff:
  "validateCardForm nm num mm yy cv = None \<longleftrightarrow>
     check_cardName nm = None \<and> check_cardNumber (strip_whitespace num) = None \<and>
     check_expiryMonth mm = None \<and> check_expiryYear yy = None \<and> check_cvv cv = None"
  by (auto simp: validateCardForm_def Let_def obj_keys_def store_error_Nil_iff)

lemma validateCardData_example_card: "validateCardData example_card = None"
  unfolding validateCardData_def example_card_def by code_simp

text \<open>No check stores an empty message, so the fallback of \<open>first_error\<close> is never taken.\<close>

lemma check_cardName_msg: "check_cardName nm = Some m \<Longrightarrow> m \<noteq> []"
  by (auto simp: check_cardName_def msg_cardName_def split: if_splits)

lemma check_cardNumber_msg: "check_cardNumber n = Some m \<Longrightarrow> m \<noteq> []"
  by (auto simp: check_cardNumber_def msg_cardNumber_def split: if_splits)

lemma check_expiryMonth_msg: "check_expiryMonth mm = Some m \<Longrightarrow> m \<noteq> []"
  by (auto simp: check_expiryMonth_def msg_month_required_def msg_month_invalid_def
      split: if_splits option.splits)

lemma check_expiryYear_msg: "check_expiryYear yy = Some m \<Longrightarrow> m \<noteq> []"
  by (auto simp: check_expiryYear_def msg_year_required_def msg_year_invalid_def split: if_splits)

lemma check_cvv_msg: "check_cvv cv = Some m \<Longrightarrow> m \<noteq> []"
  by (auto simp: check_cvv_def msg_cvv_invalid_def msg_cvv_zero_def split: if_splits)

text \<open>Each check of \<open>validateCardForm\<close> in terms of the input.\<close>

lemma check_cardName_fails:
  "check_cardName (cardName cd) = (if name_fails cd then Some msg_cardName else None)"
  by (simp add: check_cardName_def name_fails_def js_trim_empty_iff)

lemma check_cardNumber_fails:
  "check_cardNumber (strip_whitespace (cardNumber cd)) =
     (if number_fails cd then Some msg_cardNumber else None)"
  by (simp add: check_cardNumber_def number_fails_def)

lemma check_expiryMonth_fails:
  "check_expiryMonth (expiryMonth cd) =
     (if month_fails cd
      then Some (if expiryMonth cd = [] then msg_month_required else msg_month_invalid)
      else None)"
  by (cases "expiryMonth cd = []")
     (auto simp: check_expiryMonth_def month_fails_def parseInt10_Nil split: option.splits)

lemma check_expiryYear_fails:
  "check_expiryYear (expiryYear cd) =
     (if year_fails cd
      then Some (if expiryYear cd = [] then msg_year_required else msg_year_invalid)
      else None)"
  by (auto simp: check_expiryYear_def year_fails_def)

lemma check_cvv_fails:
  "check_cvv (cvv cd) =
     (if cvv_fails cd
      then Some (if length (cvv cd) \<noteq> 3 then msg_cvv_invalid else msg_cvv_zero)
      else None)"
  by (auto simp: check_cvv_def cvv_fails_def)

lemmas check_fails =
  check_cardName_fails check_cardNumber_fails check_expiryMonth_fails check_expiryYear_fails
  check_cvv_fails

lemma validateCardData_None_iff:
  "validateCardData cd = None \<longleftrightarrow>
     \<not> (name_fails cd \<or> number_fails cd \<or> month_fails cd \<or> year_fails cd \<or> cvv_fails cd)"
  by (simp add: validateCardData_def validateCardForm_None_iff check_fails)

lemma first_failing_field_msg: "first_failing_field cd = Some (k, m) \<Longrightarrow> m \<noteq> []"
  by (auto simp: first_failing_field_def msg_cardName_def msg_cardNumber_def
      msg_month_required_def msg_month_invalid_def msg_year_required_def msg_year_invalid_def
      msg_cvv_invalid_def msg_cvv_zero_def split: if_splits)

text \<open>The first property of the error object belongs to the first check that failed.\<close>

lemma errors_head:
  "store_error (store_error (store_error (store_error (store_error [] ''cardName'' r1)
       ''cardNumber'' r2) ''expiryMonth'' r3) ''expiryYear'' r4) ''cvv'' r5 = errs \<Longrightarrow>
   errs \<noteq> [] \<Longrightarrow>
   Some (hd errs) =
     (case r1 of Some m \<Rightarrow> Some (''cardName'', m) | None \<Rightarrow>
     (case r2 of Some m \<Rightarrow> Some (''cardNumber'', m) | None \<Rightarrow>
     (case r3 of Some m \<Rightarrow> Some (''expiryMonth'', m) | None \<Rightarrow>
     (case r4 of Some m \<Rightarrow> Some (''expiryYear'', m) | None \<Rightarrow>
     (case r5 of Some m \<Rightarrow> Some (''cvv'', m) | None \<Rightarrow> None)))))"
  by (cases r1; cases r2; cases r3; cases r4; cases r5) (auto simp: store_error_def)

lemma validateCardData_head:
  assumes "validateCardData cd = Some errs"
  shows "errs \<noteq> [] \<and> first_failing_field cd = Some (hd errs)"
proof -
  from assms have ne: "errs \<noteq> []"
    by (auto simp: validateCardData_def validateCardForm_def Let_def obj_keys_def
        split: if_splits)
  from assms have "store_error (store_error (store_error (store_error (store_error []
        ''cardName'' (check_cardName (cardName cd)))
        ''cardNumber'' (check_cardNumber (strip_whitespace (cardNumber cd))))
        ''expiryMonth'' (check_expiryMonth (expiryMonth cd)))
        ''expiryYear'' (check_expiryYear (expiryYear cd)))
        ''cvv'' (check_cvv (cvv cd)) = errs"
    by (simp add: validateCardData_def validateCardForm_def Let_def split: if_splits)
  from errors_head [OF this ne] have "Some (hd errs) = first_failing_field cd"
    by (simp add: check_fails first_failing_field_def)
  with ne show ?thesis by simp
qed

lemma handleCardFormSubmit_invalid_card:
  assumes "validateCardData cd \<noteq> None"
  shows "isSubmitting (handleCardFormSubmit manual automatic detect settings cd u)"
proof -
  from assms obtain errs where "validateCardData cd = Some errs" by auto
  then show ?thesis by (simp add: handleCardFormSubmit_def processCardPayment_def Let_def)
qed

subsection \<open>Masking\<close>

lemma length_maskCardNumber: "length (maskCardNumber s) = length s"
  by (induction s) simp_all

lemma maskCardNumber_nth:
  "i < length s \<Longrightarrow>
   maskCardNumber s ! i =
     (if is_digit (s ! i) \<and> lookahead_digits 4 (drop (Suc i) s) then CHR ''*'' else s ! i)"
proof (induction s arbitrary: i)
  case Nil
  then show ?case by simp
next
  case (Cons c cs)
  show ?case
  proof (cases i)
    case 0
    then show ?thesis by simp
  next
    case (Suc j)
    with Cons.prems have "j < length cs" by simp
    from Cons.IH [OF this] Suc show ?thesis by simp
  qed
qed

lemma lookahead_digits_count:
  assumes "lookahead_digits n cs"
  shows "n \<le> length (filter is_digit cs)"
proof -
  from assms have "filter is_digit (take n cs) = take n cs"
    by (simp add: lookahead_digits_def list_all_iff)
  moreover have "length (filter is_digit (take n cs)) \<le> length (filter is_digit cs)"
  proof -
    have "filter is_digit cs = filter is_digit (take n cs) @ filter is_digit (drop n cs)"
      by (metis append_take_drop_id filter_append)
    then show ?thesis by simp
  qed
  ultimately show ?thesis using assms by (simp add: lookahead_digits_def)
qed

lemma maskCardNumber_few_digits:
  "length (filter is_digit s) \<le> 4 \<Longrightarrow> maskCardNumber s = s"
proof (induction s)
  case Nil
  then show ?case by simp
next
  case (Cons c cs)
  have "\<not> (is_digit c \<and> lookahead_digits 4 cs)"
  proof
    assume "is_digit c \<and> lookahead_digits 4 cs"
    then have "is_digit c" and "4 \<le> length (filter is_digit cs)"
      by (simp_all add: lookahead_digits_count)
    with Cons.prems show False by simp
  qed
  moreover from Cons.prems have "length (filter is_digit cs) \<le> 4"
    by (simp split: if_splits)
  ultimately show ?case using Cons.IH by auto
qed

lemma maskCardNumber_last_digits:
  assumes "i < length s" and "length (filter is_digit (drop (Suc i) s)) < 4"
  shows "maskCardNumber s ! i = s ! i"
proof -
  from assms(2) have "\<not> lookahead_digits 4 (drop (Suc i) s)"
    using lookahead_digits_count [of 4 "drop (Suc i) s"] by auto
  with assms(1) show ?thesis by (simp add: maskCardNumber_nth)
qed

text \<open>
  What the pattern does: a digit is masked exactly when the four characters right after it
  are digits. Every other character stays, among them every digit with fewer than four
  digits anywhere after it, and a string with at most four digits is returned unchanged.
\<close>

lemma maskCardNumber_contiguous:
  "length (maskCardNumber s) = length s \<and>
   (\<forall>i < length s.
      maskCardNumber s ! i =
        (if is_digit (s ! i) \<and> i + 4 < length s \<and> list_all is_digit (take 4 (drop (Suc i) s))
         then CHR ''*'' else s ! i)) \<and>
   (\<forall>i < length s. \<not> is_digit (s ! i) \<longrightarrow> maskCardNumber s ! i = s ! i) \<and>
   (\<forall>i < length s. length (filter is_digit (drop (Suc i) s)) < 4 \<longrightarrow> maskCardNumber s ! i = s ! i) \<and>
   (length (filter is_digit s) \<le> 4 \<longrightarrow> maskCardNumber s = s)"
proof (intro conjI allI impI)
  show "length (maskCardNumber s) = length s" by (rule length_maskCardNumber)
next
  fix i assume "i < length s"
  moreover have "lookahead_digits 4 (drop (Suc i) s) \<longleftrightarrow>
      i + 4 < length s \<and> list_all is_digit (take 4 (drop (Suc i) s))"
    by (auto simp: lookahead_digits_def)
  ultimately show "maskCardNumber s ! i =
        (if is_digit (s ! i) \<and> i + 4 < length s \<and> list_all is_digit (take 4 (drop (Suc i) s))
         then CHR ''*'' else s ! i)"
    by (simp only: maskCardNumber_nth)
next
  fix i assume "i < length s" and "\<not> is_digit (s ! i)"
  then show "maskCardNumber s ! i = s ! i" by (simp add: maskCardNumber_nth)
next
  fix i assume "i < length s" and "length (filter is_digit (drop (Suc i) s)) < 4"
  then show "maskCardNumber s ! i = s ! i" by (rule maskCardNumber_last_digits)
next
  assume "length (filter is_digit s) \<le> 4"
  then show "maskCardNumber s = s" by (rule maskCardNumber_few_digits)
qed

text \<open>On a string of digits alone the pattern masks all but the last four.\<close>

lemma maskCardNumber_digits_only:
  "list_all is_digit s \<Longrightarrow> maskCardNumber s = spec_maskCardNumber s"
proof (induction s)
  case Nil
  then show ?case by simp
next
  case (Cons c cs)
  then have all: "list_all is_digit cs" by simp
  then have "filter is_digit cs = cs" by (simp add: list_all_iff)
  moreover from all have "lookahead_digits 4 cs \<longleftrightarrow> 4 \<le> length cs"
    by (auto simp: lookahead_digits_def list_all_iff dest: in_set_takeD)
  ultimately show ?case using Cons.IH [OF all] by simp
qed

lemma maskCardNumber_example: "maskCardNumber ''4111111111111111'' = ''************1111''"
  by (simp add: lookahead_digits_def is_digit_def)

subsection \<open>createOrder\<close>

lemma schedule_cleanup_simps:
  "globalPaymentsInProgress (schedule_cleanup w i p) = globalPaymentsInProgress w"
  "hooks (schedule_cleanup w i p) = hooks w"
  "serviceCalls (schedule_cleanup w i p) = serviceCalls w"
  by (simp_all add: schedule_cleanup_def)

lemma createOrder_settled_simps:
  "globalPaymentsInProgress (createOrder_settled w i p ok) = globalPaymentsInProgress w"
  "serviceCalls (createOrder_settled w i p ok) = serviceCalls w"
  by (simp_all add: createOrder_settled_def schedule_cleanup_def)

text \<open>While the payment id is in the global map, every invocation is rejected as a duplicate.\<close>

lemma createOrder_claimed:
  assumes "globalPaymentsInProgress w pid \<noteq> None"
  shows "\<exists>e. createOrder v fs w j seen pid = (Rejected e, schedule_cleanup w j pid) \<and> is_duplicate e"
  using assms by (auto simp: createOrder_def Let_def)

lemma createOrder_steps_claimed:
  assumes "globalPaymentsInProgress w pid \<noteq> None"
  shows "\<exists>rs w'. createOrder_steps v fs w steps pid = (rs, w') \<and> length rs = invocations steps \<and>
           (\<forall>r \<in> set rs. \<exists>e. r = Rejected e \<and> is_duplicate e) \<and>
           serviceCalls w' = serviceCalls w"
  using assms
proof (induction steps arbitrary: w)
  case Nil
  then show ?case by simp
next
  case (Cons step steps)
  show ?case
  proof (cases step)
    case (Invoke j seen)
    from createOrder_claimed [OF Cons.prems, of v fs j seen] obtain e
      where e: "createOrder v fs w j seen pid = (Rejected e, schedule_cleanup w j pid)" "is_duplicate e"
      by blast
    from Cons.prems have "globalPaymentsInProgress (schedule_cleanup w j pid) pid \<noteq> None"
      by (simp add: schedule_cleanup_simps)
    from Cons.IH [OF this] obtain rs w'
      where "createOrder_steps v fs (schedule_cleanup w j pid) steps pid = (rs, w')"
        "length rs = invocations steps" "\<forall>r \<in> set rs. \<exists>e. r = Rejected e \<and> is_duplicate e"
        "serviceCalls w' = serviceCalls w"
      by (auto simp: schedule_cleanup_simps)
    with e Invoke show ?thesis by simp
  next
    case (Settle j ok)
    from Cons.prems have "globalPaymentsInProgress (createOrder_settled w j pid ok) pid \<noteq> None"
      by (simp add: createOrder_settled_simps)
    from Cons.IH [OF this] Settle show ?thesis
      by (simp add: createOrder_settled_simps)
  qed
qed

lemma createOrder_admitted:
  assumes "globalPaymentsInProgress w pid = None"
    and "\<not> processingRef (hooks w i)"
    and "orderCreatedRef (hooks w i) \<noteq> Some pid"
    and "v (prepareCustomerData fs) = None"
  shows "\<exists>w1. createOrder v fs w i False pid = (InFlight, w1) \<and>
           globalPaymentsInProgress w1 pid = Some True \<and>
           serviceCalls w1 = serviceCalls w @ [pid] \<and> cleanupTimers w1 = cleanupTimers w"
  using assms by (simp add: createOrder_def Let_def)

text \<open>
  The safety timeout resets the two flags of the instance and leaves the global map as it
  is: the id of an attempt that is still waiting stays claimed.
\<close>

lemma createOrder_claim_survives_safety_timeout:
  assumes "createOrder v fs w i seen pid = (InFlight, w1)"
  shows "cleanupTimers w1 = cleanupTimers w \<and>
         (\<exists>e. fst (createOrder v fs (safety_timeout w1 i) j seen' pid) = Rejected e \<and>
              is_duplicate e)"
proof -
  from assms have g: "globalPaymentsInProgress w1 pid = Some True"
    and t: "cleanupTimers w1 = cleanupTimers w"
    by (auto simp: createOrder_def Let_def schedule_cleanup_def split: if_splits option.splits)
  then have "globalPaymentsInProgress (safety_timeout w1 i) pid \<noteq> None"
    by (simp add: safety_timeout_def)
  from createOrder_claimed [OF this, of v fs j seen'] t show ?thesis by auto
qed

text \<open>
  The cleanup scheduled by a rejected duplicate deletes the id from the global map, also
  while the first invocation is still waiting: an invocation made after that callback
  passes the checks of \<open>createOrder\<close>.
\<close>

lemma createOrder_duplicate_cleanup_reopens:
  "fst (createOrder accept_customer fs checkout_init 0 False ''pay_1'') = InFlight \<and>
   fst (createOrder accept_customer fs
         (snd (createOrder accept_customer fs checkout_init 0 False ''pay_1'')) 1 False ''pay_1'') =
     Rejected AlreadyProcessedGlobally \<and>
   fst (createOrder accept_customer fs
         (cleanup_timer
           (snd (createOrder accept_customer fs
             (snd (createOrder accept_customer fs checkout_init 0 False ''pay_1'')) 1 False ''pay_1''))
           1 ''pay_1'')
         2 False ''pay_1'') = InFlight"
  by (simp add: createOrder_def cleanup_timer_def schedule_cleanup_def checkout_init_def
      accept_customer_def Let_def)

subsection \<open>addOrder\<close>

lemma addOrder_claimed:
  assumes "pid \<noteq> []" and "pid \<in> pendingOrderIds w"
  shows "\<exists>e. addOrder w j seen pid now = (Rejected e, w)"
  using assms by (auto simp: addOrder_def Let_def)

text \<open>
  The registry of \<open>addOrder\<close> only grows, and an id enters it when the store is handed the
  order: the store is handed a payment id at most once, whatever the calls and callbacks.
\<close>

lemma store_inv_init: "store_inv pid orders_init"
  by (simp add: store_inv_def orders_init_def)

lemma store_inv_call:
  assumes "pid \<noteq> []" and "store_inv pid w"
  shows "store_inv pid (snd (addOrder w i seen p now))"
proof -
  let ?id = "if p \<noteq> [] then p else ''order_'' @ decimal now"
  show ?thesis
  proof (cases "seen \<or> ?id \<in> pendingOrderIds w \<or>
      orderProcessingRef (orderHooks w i) = Some ?id")
    case True
    then have "snd (addOrder w i seen p now) = w"
      by (auto simp: addOrder_def Let_def)
    with assms show ?thesis by simp
  next
    case False
    then have fresh: "?id \<notin> pendingOrderIds w" by simp
    from False have
      s: "storeCalls (snd (addOrder w i seen p now)) = storeCalls w @ [p]" and
      g: "pendingOrderIds (snd (addOrder w i seen p now)) = insert ?id (pendingOrderIds w)"
      by (simp_all add: addOrder_def Let_def)
    show ?thesis
    proof (cases "p = pid")
      case True
      with assms(1) fresh have "pid \<notin> pendingOrderIds w" by simp
      with assms(2) have "pid \<notin> set (storeCalls w)" by (auto simp: store_inv_def)
      then have zero: "count_list (storeCalls w) pid = 0" by (simp add: count_list_0_iff)
      from s g True assms(1) have
        "storeCalls (snd (addOrder w i seen p now)) = storeCalls w @ [pid]" and
        "pendingOrderIds (snd (addOrder w i seen p now)) = insert pid (pendingOrderIds w)"
        by simp_all
      with zero show ?thesis by (simp add: store_inv_def)
    next
      case False
      with assms(2) show ?thesis by (auto simp: store_inv_def s g)
    qed
  qed
qed

lemma store_inv_step:
  assumes "pid \<noteq> []" and "store_inv pid w"
  shows "store_inv pid (orders_step w ev)"
proof (cases ev)
  case (ACall i seen p now)
  with store_inv_call [OF assms, of i seen p now] show ?thesis by simp
next
  case (ATimer i)
  with assms(2) show ?thesis by (simp add: store_inv_def addOrder_timer_def)
qed

lemma store_inv_run:
  assumes "pid \<noteq> []"
  shows "store_inv pid w \<Longrightarrow> store_inv pid (orders_run w evs)"
  unfolding orders_run_def
  by (induction evs arbitrary: w) (simp_all add: store_inv_step [OF assms])

lemma store_at_most_once:
  assumes "pid \<noteq> []"
  shows "count_list (storeCalls (orders_run orders_init oevs)) pid \<le> 1"
  using store_inv_run [OF assms, of orders_init oevs] store_inv_init [of pid]
  by (simp add: store_inv_def)

lemma addOrder_admitted_id:
  assumes "addOrder w i seen pid now = (InFlight, w1)" and "pid \<noteq> []"
  shows "pid \<in> pendingOrderIds w1"
  using assms by (auto simp: addOrder_def Let_def split: if_splits)

lemma orders_step_keeps_id: "pid \<in> pendingOrderIds w \<Longrightarrow> pid \<in> pendingOrderIds (orders_step w ev)"
  by (cases ev) (auto simp: addOrder_def addOrder_timer_def Let_def)

lemma orders_run_keeps_id: "pid \<in> pendingOrderIds w \<Longrightarrow> pid \<in> pendingOrderIds (orders_run w evs)"
  unfolding orders_run_def
  by (induction evs arbitrary: w) (simp_all add: orders_step_keeps_id)

subsection \<open>handleOrderCreation\<close>

lemma safePaymentId_nonempty: "pid \<noteq> [] \<Longrightarrow> safePaymentId pid now = pid"
  by (simp add: safePaymentId_def)

lemma handleOrderCreation_processed:
  assumes "pid \<noteq> []" and "pid \<in> processedPaymentIds w"
  shows "handleOrderCreation w j pid st now = (Rejected (AlreadyProcessed pid), w)"
  using assms by (simp add: handleOrderCreation_def safePaymentId_def)

lemma handleOrderCreation_busy:
  assumes "isProcessingRef (wrappers w i)"
  shows "\<exists>e. handleOrderCreation w i pid st now = (Rejected e, w)"
  using assms by (auto simp: handleOrderCreation_def Let_def)

lemma handleOrderCreation_admitted:
  assumes "handleOrderCreation w i pid st now = (InFlight, w1)"
  shows "safePaymentId pid now \<in> processedPaymentIds w1"
  using assms by (auto simp: handleOrderCreation_def Let_def split: if_splits)

lemma wrapper_step_keeps_id:
  "pid \<in> processedPaymentIds w \<Longrightarrow> pid \<in> processedPaymentIds (wrapper_step w ev)"
  by (cases ev)
     (auto simp: handleOrderCreation_def handleOrderCreation_settled_def reset_timer_def Let_def)

lemma wrapper_run_keeps_id:
  "pid \<in> processedPaymentIds w \<Longrightarrow> pid \<in> processedPaymentIds (wrapper_run w evs)"
  unfolding wrapper_run_def
  by (induction evs arbitrary: w) (simp_all add: wrapper_step_keeps_id)

text \<open>The invariant holds initially and every step keeps it.\<close>

lemma wrapper_inv_init: "wrapper_inv wrapper_init"
  by (simp add: wrapper_inv_def wrapper_init_def)

lemma wrapper_inv_call:
  assumes "wrapper_inv w"
  shows "wrapper_inv (snd (handleOrderCreation w i pid st now))"
proof (cases "safePaymentId pid now \<in> processedPaymentIds w \<or>
    safePaymentId pid now \<in> localProcessedPaymentIds (wrappers w i) \<or>
    isProcessingRef (wrappers w i)")
  case True
  then have "snd (handleOrderCreation w i pid st now) = w"
    by (auto simp: handleOrderCreation_def Let_def)
  with assms show ?thesis by simp
next
  case False
  then have free: "\<not> isProcessingRef (wrappers w i)" by simp
  from assms have "awaiting w i + resetTimers w i \<le> 1 \<and>
      (isProcessingRef (wrappers w i) \<longleftrightarrow> awaiting w i + resetTimers w i = 1)"
    by (simp add: wrapper_inv_def)
  with free have zero: "awaiting w i = 0" "resetTimers w i = 0"
    by linarith+
  let ?w' = "snd (handleOrderCreation w i pid st now)"
  from False have
    a: "awaiting ?w' = (awaiting w)(i := Suc (awaiting w i))" and
    r: "resetTimers ?w' = resetTimers w" and
    f: "\<And>j. isProcessingRef (wrappers ?w' j) = (if j = i then True else isProcessingRef (wrappers w j))"
    by (simp_all add: handleOrderCreation_def Let_def)
  show ?thesis
    unfolding wrapper_inv_def
  proof
    fix j
    from assms have "awaiting w j + resetTimers w j \<le> 1 \<and>
      (isProcessingRef (wrappers w j) \<longleftrightarrow> awaiting w j + resetTimers w j = 1)"
      by (simp add: wrapper_inv_def)
    with zero show "awaiting ?w' j + resetTimers ?w' j \<le> 1 \<and>
      (isProcessingRef (wrappers ?w' j) \<longleftrightarrow> awaiting ?w' j + resetTimers ?w' j = 1)"
      by (cases "j = i") (simp_all add: a r f)
  qed
qed

lemma wrapper_inv_settled:
  assumes "wrapper_inv w"
  shows "wrapper_inv (handleOrderCreation_settled w i)"
proof (cases "awaiting w i = 0")
  case True
  with assms show ?thesis by (simp add: handleOrderCreation_settled_def)
next
  case False
  let ?w' = "handleOrderCreation_settled w i"
  from False have
    a: "awaiting ?w' = (awaiting w)(i := awaiting w i - 1)" and
    r: "resetTimers ?w' = (resetTimers w)(i := Suc (resetTimers w i))" and
    f: "wrappers ?w' = wrappers w"
    by (simp_all add: handleOrderCreation_settled_def)
  show ?thesis
    unfolding wrapper_inv_def
  proof
    fix j
    from assms have "awaiting w j + resetTimers w j \<le> 1 \<and>
      (isProcessingRef (wrappers w j) \<longleftrightarrow> awaiting w j + resetTimers w j = 1)"
      by (simp add: wrapper_inv_def)
    with False show "awaiting ?w' j + resetTimers ?w' j \<le> 1 \<and>
      (isProcessingRef (wrappers ?w' j) \<longleftrightarrow> awaiting ?w' j + resetTimers ?w' j = 1)"
      by (cases "j = i") (auto simp: a r f)
  qed
qed

lemma wrapper_inv_timer:
  assumes "wrapper_inv w"
  shows "wrapper_inv (reset_timer w i)"
proof (cases "resetTimers w i = 0")
  case True
  with assms show ?thesis by (simp add: reset_timer_def)
next
  case False
  let ?w' = "reset_timer w i"
  from False have
    a: "awaiting ?w' = awaiting w" and
    r: "resetTimers ?w' = (resetTimers w)(i := resetTimers w i - 1)" and
    f: "\<And>j. isProcessingRef (wrappers ?w' j) = (if j = i then False else isProcessingRef (wrappers w j))"
    by (simp_all add: reset_timer_def)
  show ?thesis
    unfolding wrapper_inv_def
  proof
    fix j
    from assms have "awaiting w j + resetTimers w j \<le> 1 \<and>
      (isProcessingRef (wrappers w j) \<longleftrightarrow> awaiting w j + resetTimers w j = 1)"
      by (simp add: wrapper_inv_def)
    with False show "awaiting ?w' j + resetTimers ?w' j \<le> 1 \<and>
      (isProcessingRef (wrappers ?w' j) \<longleftrightarrow> awaiting ?w' j + resetTimers ?w' j = 1)"
      by (cases "j = i") (auto simp: a r f)
  qed
qed

lemma wrapper_inv_step: "wrapper_inv w \<Longrightarrow> wrapper_inv (wrapper_step w ev)"
  by (cases ev) (simp_all add: wrapper_inv_call wrapper_inv_settled wrapper_inv_timer)

lemma wrapper_inv_run: "wrapper_inv w \<Longrightarrow> wrapper_inv (wrapper_run w evs)"
  unfolding wrapper_run_def
  by (induction evs arbitrary: w) (simp_all add: wrapper_inv_step)

lemma wrapper_awaiting_flag:
  assumes "wrapper_inv w" and "0 < awaiting w i"
  shows "isProcessingRef (wrappers w i) \<and> resetTimers w i = 0"
proof -
  from assms(1) have "awaiting w i + resetTimers w i \<le> 1"
    and "isProcessingRef (wrappers w i) \<longleftrightarrow> awaiting w i + resetTimers w i = 1"
    by (simp_all add: wrapper_inv_def)
  with assms(2) show ?thesis by auto
qed

section \<open>The claims\<close>

subsection \<open>C1: one order for concurrent invocations\<close>

text \<open>
  Claim C1. Invocations of \<open>createOrder\<close> with one payment id are interleaved: the first is
  issued by an instance that is idle (its ref is clear and the function called has
  captured \<open>isProcessing\<close> false) and has not created an order for the id, the id is not
  in the global map, and the customer data is valid; the others, by any instances, and the
  ends of the \<open>await\<close>s follow in any order before any cleanup callback runs. Then the first invocation
  is the only one to reach \<open>createOrderService\<close>, which is called once with the id, and every
  other invocation is rejected with a duplicate error before it. At the store itself,
  whatever calls of \<open>addOrder\<close> and callbacks take place from the start, an order with a
  given (non-empty) payment id is handed to the store at most once.
\<close>

theorem createOrder_exactly_one_admitted:
  assumes "globalPaymentsInProgress w pid = None"
    and "\<not> processingRef (hooks w i)"
    and "orderCreatedRef (hooks w i) \<noteq> Some pid"
    and "validateCustomerData (prepareCustomerData fs) = None"
  shows "(\<exists>rs w'. createOrder_steps validateCustomerData fs w (Invoke i False # steps) pid =
             (InFlight # rs, w') \<and>
           length rs = invocations steps \<and>
           (\<forall>r \<in> set rs. \<exists>e. r = Rejected e \<and> is_duplicate e) \<and>
           serviceCalls w' = serviceCalls w @ [pid]) \<and>
         (pid \<noteq> [] \<longrightarrow> count_list (storeCalls (orders_run orders_init oevs)) pid \<le> 1)"
proof -
  from createOrder_admitted [where v = validateCustomerData and fs = fs, OF assms] obtain w1
    where w1: "createOrder validateCustomerData fs w i False pid = (InFlight, w1)"
      "globalPaymentsInProgress w1 pid = Some True" "serviceCalls w1 = serviceCalls w @ [pid]"
    by blast
  from w1(2) have "globalPaymentsInProgress w1 pid \<noteq> None" by simp
  from createOrder_steps_claimed [OF this, of validateCustomerData fs steps] obtain rs w'
    where "createOrder_steps validateCustomerData fs w1 steps pid = (rs, w')"
      "length rs = invocations steps"
      "\<forall>r \<in> set rs. \<exists>e. r = Rejected e \<and> is_duplicate e" "serviceCalls w' = serviceCalls w1"
    by blast
  with w1 have "\<exists>rs w'. createOrder_steps validateCustomerData fs w (Invoke i False # steps) pid =
             (InFlight # rs, w') \<and>
           length rs = invocations steps \<and>
           (\<forall>r \<in> set rs. \<exists>e. r = Rejected e \<and> is_duplicate e) \<and>
           serviceCalls w' = serviceCalls w @ [pid]"
    by simp
  moreover have "pid \<noteq> [] \<longrightarrow> count_list (storeCalls (orders_run orders_init oevs)) pid \<le> 1"
    by (rule impI) (rule store_at_most_once)
  ultimately show ?thesis by (rule conjI)
qed

theorem createOrder_exactly_one_admitted_witness:
  "globalPaymentsInProgress checkout_init ''pay_1'' = None \<and>
   \<not> processingRef (hooks checkout_init 0) \<and>
   orderCreatedRef (hooks checkout_init 0) \<noteq> Some ''pay_1'' \<and>
   accept_customer (prepareCustomerData example_form) = None \<and>
   fst (createOrder_steps accept_customer example_form checkout_init
          [Invoke 0 False, Invoke 0 False, Invoke 1 False, Settle 0 True, Invoke 2 True, Invoke 0 False] ''pay_1'') =
     [InFlight, Rejected ProcessingInProgress, Rejected AlreadyProcessedGlobally,
      Rejected ProcessingInProgress, Rejected ProcessingInProgress] \<and>
   serviceCalls (snd (createOrder_steps accept_customer example_form checkout_init
          [Invoke 0 False, Invoke 0 False, Invoke 1 False, Settle 0 True, Invoke 2 True, Invoke 0 False] ''pay_1'')) =
     [''pay_1''] \<and>
   ''pay_1'' \<noteq> [] \<and>
   count_list (storeCalls (orders_run orders_init
     [ACall 0 False ''pay_1'' 5, ACall 1 False ''pay_1'' 6, ATimer 0, ATimer 1, ACall 0 False ''pay_1'' 7]))
     ''pay_1'' = 1"
proof -
  have a: "globalPaymentsInProgress checkout_init ''pay_1'' = None"
    and c: "\<not> processingRef (hooks checkout_init 0)"
    and d: "orderCreatedRef (hooks checkout_init 0) \<noteq> Some ''pay_1''"
    by (simp_all add: checkout_init_def)
  have e: "accept_customer (prepareCustomerData example_form) = None"
    by (simp add: accept_customer_def)
  note t = createOrder_exactly_one_admitted [where validateCustomerData = accept_customer
      and fs = example_form and steps = "[Invoke 0 False, Invoke 1 False, Settle 0 True, Invoke 2 True, Invoke 0 False]"
      and oevs = "[ACall 0 False ''pay_1'' 5, ACall 1 False ''pay_1'' 6, ATimer 0, ATimer 1, ACall 0 False ''pay_1'' 7]",
      OF a c d e]
  have f: "''pay_1'' \<noteq> []" by simp
  have "''pay_1'' \<in> set (storeCalls (orders_run orders_init
     [ACall 0 False ''pay_1'' 5, ACall 1 False ''pay_1'' 6, ATimer 0, ATimer 1, ACall 0 False ''pay_1'' 7]))"
    by (simp add: orders_run_def orders_init_def addOrder_def addOrder_timer_def Let_def)
  then have "count_list (storeCalls (orders_run orders_init
     [ACall 0 False ''pay_1'' 5, ACall 1 False ''pay_1'' 6, ATimer 0, ATimer 1, ACall 0 False ''pay_1'' 7]))
     ''pay_1'' \<noteq> 0"
    by (simp only: count_list_0_iff not_not)
  with t f have 3: "count_list (storeCalls (orders_run orders_init
     [ACall 0 False ''pay_1'' 5, ACall 1 False ''pay_1'' 6, ATimer 0, ATimer 1, ACall 0 False ''pay_1'' 7]))
     ''pay_1'' = 1"
    by linarith
  from t
  have 1: "serviceCalls (snd (createOrder_steps accept_customer example_form checkout_init
          [Invoke 0 False, Invoke 0 False, Invoke 1 False, Settle 0 True, Invoke 2 True, Invoke 0 False] ''pay_1'')) =
     [''pay_1'']"
    by (auto simp: checkout_init_def)
  have 2: "fst (createOrder_steps accept_customer example_form checkout_init
          [Invoke 0 False, Invoke 0 False, Invoke 1 False, Settle 0 True, Invoke 2 True, Invoke 0 False] ''pay_1'') =
     [InFlight, Rejected ProcessingInProgress, Rejected AlreadyProcessedGlobally,
      Rejected ProcessingInProgress, Rejected ProcessingInProgress]"
    by (simp add: createOrder_def createOrder_settled_def schedule_cleanup_def checkout_init_def
        accept_customer_def Let_def)
  from a c d e 1 2 f 3 show ?thesis by (intro conjI)
qed

subsection \<open>C2: the record of a processed payment is kept\<close>

text \<open>
  Claim C2. Once order creation has been admitted for a payment id, the id stays in the
  shared registry whatever happens next (the order is created or not, the reset callbacks
  run, other calls are made by any instance), and a later call for the same id, by any
  instance, is rejected as a duplicate without creating an order. This holds for the
  registry of \<open>handleOrderCreation\<close> (\<open>processedPaymentIds\<close>) and for the one of
  \<open>addOrder\<close> (\<open>pendingOrderIds\<close>); the payment id is not empty.
\<close>

theorem payment_id_retained_after_creation:
  assumes "pid \<noteq> []"
  shows "(handleOrderCreation w i pid st now = (InFlight, w1) \<longrightarrow>
            pid \<in> processedPaymentIds (wrapper_run w1 evs) \<and>
            handleOrderCreation (wrapper_run w1 evs) j pid st' now' =
              (Rejected (AlreadyProcessed pid), wrapper_run w1 evs)) \<and>
         (addOrder ow k seen pid now = (InFlight, ow1) \<longrightarrow>
            pid \<in> pendingOrderIds (orders_run ow1 oevs) \<and>
            (\<exists>e. addOrder (orders_run ow1 oevs) l seen' pid now' =
                   (Rejected e, orders_run ow1 oevs)))"
proof (intro conjI impI)
  assume h: "handleOrderCreation w i pid st now = (InFlight, w1)"
  from handleOrderCreation_admitted [OF h] assms have "pid \<in> processedPaymentIds w1"
    by (simp add: safePaymentId_nonempty)
  then show in_set: "pid \<in> processedPaymentIds (wrapper_run w1 evs)"
    by (rule wrapper_run_keeps_id)
  from handleOrderCreation_processed [OF assms in_set]
  show "handleOrderCreation (wrapper_run w1 evs) j pid st' now' =
      (Rejected (AlreadyProcessed pid), wrapper_run w1 evs)" .
next
  assume h: "addOrder ow k seen pid now = (InFlight, ow1)"
  from addOrder_admitted_id [OF h assms]
  show in_set: "pid \<in> pendingOrderIds (orders_run ow1 oevs)"
    by (rule orders_run_keeps_id)
  from addOrder_claimed [OF assms in_set]
  show "\<exists>e. addOrder (orders_run ow1 oevs) l seen' pid now' = (Rejected e, orders_run ow1 oevs)" .
qed

theorem payment_id_retained_after_creation_witness:
  "''pay_1'' \<noteq> [] \<and>
   fst (handleOrderCreation wrapper_init 0 ''pay_1'' Confirmed 5) = InFlight \<and>
   fst (handleOrderCreation
          (wrapper_run (snd (handleOrderCreation wrapper_init 0 ''pay_1'' Confirmed 5))
             [HSettled 0, HTimer 0, HCall 1 ''pay_2'' Pending 7])
          2 ''pay_1'' Confirmed 9) = Rejected (AlreadyProcessed ''pay_1'') \<and>
   fst (addOrder orders_init 0 False ''pay_1'' 5) = InFlight \<and>
   fst (addOrder (orders_run (snd (addOrder orders_init 0 False ''pay_1'' 5)) [ATimer 0])
          1 False ''pay_1'' 9) = Rejected (PaymentPending ''pay_1'')"
proof -
  have a: "''pay_1'' \<noteq> []" by simp
  have b: "fst (handleOrderCreation wrapper_init 0 ''pay_1'' Confirmed 5) = InFlight"
    by (simp add: handleOrderCreation_def wrapper_init_def safePaymentId_def Let_def)
  then have b': "handleOrderCreation wrapper_init 0 ''pay_1'' Confirmed 5 =
      (InFlight, snd (handleOrderCreation wrapper_init 0 ''pay_1'' Confirmed 5))"
    by (metis prod.collapse)
  have c: "fst (addOrder orders_init 0 False ''pay_1'' 5) = InFlight"
    by (simp add: addOrder_def orders_init_def Let_def)
  then have c': "addOrder orders_init 0 False ''pay_1'' 5 =
      (InFlight, snd (addOrder orders_init 0 False ''pay_1'' 5))"
    by (metis prod.collapse)
  note t = payment_id_retained_after_creation [OF a,
      where w = wrapper_init and i = 0 and st = Confirmed and now = 5
        and ?w1.0 = "snd (handleOrderCreation wrapper_init 0 ''pay_1'' Confirmed 5)"
        and evs = "[HSettled 0, HTimer 0, HCall 1 ''pay_2'' Pending 7]"
        and j = 2 and st' = Confirmed and now' = 9
        and ow = orders_init and k = 0 and seen = False
        and ?ow1.0 = "snd (addOrder orders_init 0 False ''pay_1'' 5)"
        and oevs = "[ATimer 0]" and l = 1 and seen' = False]
  from t b' have 1: "fst (handleOrderCreation
          (wrapper_run (snd (handleOrderCreation wrapper_init 0 ''pay_1'' Confirmed 5))
             [HSettled 0, HTimer 0, HCall 1 ''pay_2'' Pending 7])
          2 ''pay_1'' Confirmed 9) = Rejected (AlreadyProcessed ''pay_1'')"
    by simp
  from t c' have in_set: "''pay_1'' \<in>
      pendingOrderIds (orders_run (snd (addOrder orders_init 0 False ''pay_1'' 5)) [ATimer 0])"
    by simp
  then have 2: "fst (addOrder
      (orders_run (snd (addOrder orders_init 0 False ''pay_1'' 5)) [ATimer 0]) 1 False ''pay_1'' 9) =
      Rejected (PaymentPending ''pay_1'')"
    by (simp add: addOrder_def [of "orders_run (snd (addOrder orders_init 0 False ''pay_1'' 5)) [ATimer 0]"]
        Let_def)
  from a b 1 c 2 show ?thesis by (intro conjI)
qed

subsection \<open>C3: the submitting flag\<close>

text \<open>
  Claim C3 asks that every exit of the card pipeline leaves the submitting flag reset. The
  exit on a validation failure does not: \<open>handleCardFormSubmit\<close> sets the flag, and
  \<open>processCardPayment\<close> returns after \<open>setError\<close> without resetting it. Here a card with an
  empty holder name is submitted from an idle form; the form is left submitting, with the
  message for the name, whatever the settings and the processors are.
\<close>

theorem handleCardFormSubmit_stuck_submitting:
  "handleCardFormSubmit manual automatic detect settings
     \<lparr>cardName = [], cardNumber = ''4111 1111 1111 1111'', expiryMonth = ''12'',
      expiryYear = ''30'', cvv = ''123''\<rparr>
     \<lparr>isSubmitting = False, error = [], calls = []\<rparr> =
   \<lparr>isSubmitting = True, error = msg_cardName, calls = []\<rparr>"
proof -
  have "validateCardData \<lparr>cardName = [], cardNumber = ''4111 1111 1111 1111'', expiryMonth = ''12'',
      expiryYear = ''30'', cvv = ''123''\<rparr> = Some [(''cardName'', msg_cardName)]"
    unfolding validateCardData_def by code_simp
  then show ?thesis
    by (simp add: handleCardFormSubmit_def processCardPayment_def Let_def first_error_def
        obj_values_def msg_cardName_def)
qed

subsection \<open>C4: what the validation accepts\<close>

text \<open>
  Claim C4, amended. For every input whose card number has at most 19 characters once the
  white space is removed, \<open>validateCardForm\<close> accepts the input (returns no error object) if
  and only if the name has a character that is not white space, the stripped number has at
  least 16 characters, the month parses (as \<open>parseInt\<close> does) to an integer from 1 to 12,
  the year has exactly 2 characters, and the CVV has exactly 3 characters and is not 000.
  No character of the number or of the CVV is required to be a digit.
\<close>

theorem validateCardForm_accepts_iff:
  assumes "length (strip_whitespace num) \<le> 19"
  shows "validateCardForm nm num mm yy cv = None \<longleftrightarrow>
     \<not> list_all js_space nm \<and>
     16 \<le> length (strip_whitespace num) \<and>
     (\<exists>m. parseInt10 mm = Some m \<and> 1 \<le> m \<and> m \<le> 12) \<and>
     length yy = 2 \<and>
     length cv = 3 \<and> cv \<noteq> ''000''"
  by (simp only: validateCardForm_None_iff check_cardName_None_iff check_cardNumber_None_iff
        check_expiryMonth_None_iff check_expiryYear_None_iff check_cvv_None_iff)

theorem validateCardForm_accepts_iff_witness:
  "length (strip_whitespace ''4111 1111 1111 1111'') \<le> 19 \<and>
   validateCardForm ''Ana'' ''4111 1111 1111 1111'' ''12'' ''30'' ''123'' = None \<and>
   length (strip_whitespace ''4111 1111 1111 111'') \<le> 19 \<and>
   validateCardForm ''Ana'' ''4111 1111 1111 111'' ''12'' ''30'' ''123'' \<noteq> None"
proof -
  have a: "length (strip_whitespace ''4111 1111 1111 1111'') \<le> 19"
    by (simp add: strip_whitespace_def js_space_def)
  have b: "length (strip_whitespace ''4111 1111 1111 111'') \<le> 19"
    by (simp add: strip_whitespace_def js_space_def)
  have c: "parseInt10 ''12'' = Some 12"
    by (simp add: parseInt10_def js_space_def is_digit_def digits_value_def digit_val_def)
  from validateCardForm_accepts_iff [OF a, of "''Ana''" "''12''" "''30''" "''123''"] c
  have 1: "validateCardForm ''Ana'' ''4111 1111 1111 1111'' ''12'' ''30'' ''123'' = None"
    by (simp add: strip_whitespace_def js_space_def)
  from validateCardForm_accepts_iff [OF b, of "''Ana''" "''12''" "''30''" "''123''"]
  have 2: "validateCardForm ''Ana'' ''4111 1111 1111 111'' ''12'' ''30'' ''123'' \<noteq> None"
    by (simp add: strip_whitespace_def js_space_def)
  from a b 1 2 show ?thesis by (intro conjI)
qed

text \<open>
  Claim C4 as stated fails: a CVV with a letter is accepted, though it is not made of 3
  digits.
\<close>

theorem validateCardForm_accepts_non_digit_cvv:
  "validateCardForm ''Ana'' ''4111 1111 1111 1111'' ''12'' ''30'' ''12a'' = None \<and>
   \<not> spec_card_accepted ''Ana'' ''4111 1111 1111 1111'' ''12'' ''30'' ''12a''"
proof
  show "validateCardForm ''Ana'' ''4111 1111 1111 1111'' ''12'' ''30'' ''12a'' = None"
    by code_simp
  show "\<not> spec_card_accepted ''Ana'' ''4111 1111 1111 1111'' ''12'' ''30'' ''12a''"
    by (simp add: spec_card_accepted_def is_digit_def)
qed

subsection \<open>C5: manual or automatic processing\<close>

text \<open>
  Claim C5, amended. For every card that passes the validation and whose brand is detected,
  the processor takes the manual path, and the gateway is not invoked, if
  \<open>manualCardProcessing\<close> is true or \<open>isEnabled\<close> is not true (false or absent, or there are
  no settings at all); otherwise, that is when \<open>manualCardProcessing\<close> is not true and
  \<open>isEnabled\<close> is true, it takes the automatic path, which invokes the gateway once.
\<close>

theorem processCardPayment_routing:
  assumes "validateCardData cd = None" and "detect (cardNumber cd) = Some brand"
  shows "(if (case settings of None \<Rightarrow> True
              | Some s \<Rightarrow> manualCardProcessing s = Some True \<or> isEnabled s \<noteq> Some True)
          then processCardPayment processManual processAutomatic detect cd settings u =
                 processManual brand (u\<lparr>error := [], isSubmitting := True\<rparr>) \<and>
               gateway_calls (state_of (processCardPayment processManual processAutomatic detect
                 cd settings u)) = gateway_calls u
          else processCardPayment processManual processAutomatic detect cd settings u =
                 processAutomatic brand (u\<lparr>error := [], isSubmitting := True\<rparr>) \<and>
               gateway_calls (state_of (processCardPayment processManual processAutomatic detect
                 cd settings u)) = gateway_calls u + 1)"
  using assms
  by (cases settings)
     (auto simp: processCardPayment_def Let_def truthy_def opt_chain_def processManual_def
        processAutomatic_def gateway_calls_def state_of_def)

theorem processCardPayment_routing_witness:
  "validateCardData example_card = None \<and>
   detect_visa (cardNumber example_card) = Some ''visa'' \<and>
   processCardPayment processManual processAutomatic detect_visa example_card
     (Some (fallback_settings\<lparr>isEnabled := Some True, manualCardProcessing := Some True\<rparr>))
     example_ui =
   Returned \<lparr>isSubmitting = True, error = [], calls = [ProcessManual]\<rparr> \<and>
   processCardPayment processManual processAutomatic detect_visa example_card
     (Some (fallback_settings\<lparr>isEnabled := Some True\<rparr>)) example_ui =
   Returned \<lparr>isSubmitting = True, error = [], calls = [ProcessAutomatic, GatewayCharge]\<rparr>"
proof -
  note a = validateCardData_example_card
  have b: "detect_visa (cardNumber example_card) = Some ''visa''" by (simp add: detect_visa_def)
  from processCardPayment_routing [where detect = detect_visa and u = example_ui
      and settings = "Some (fallback_settings\<lparr>isEnabled := Some True,
        manualCardProcessing := Some True\<rparr>)", OF a b]
  have 1: "processCardPayment processManual processAutomatic detect_visa example_card
     (Some (fallback_settings\<lparr>isEnabled := Some True, manualCardProcessing := Some True\<rparr>))
     example_ui =
     Returned \<lparr>isSubmitting = True, error = [], calls = [ProcessManual]\<rparr>"
    by (simp add: fallback_settings_def processManual_def example_ui_def)
  from processCardPayment_routing [where detect = detect_visa and u = example_ui
      and settings = "Some (fallback_settings\<lparr>isEnabled := Some True\<rparr>)", OF a b]
  have 2: "processCardPayment processManual processAutomatic detect_visa example_card
     (Some (fallback_settings\<lparr>isEnabled := Some True\<rparr>)) example_ui =
     Returned \<lparr>isSubmitting = True, error = [], calls = [ProcessAutomatic, GatewayCharge]\<rparr>"
    by (simp add: fallback_settings_def processAutomatic_def example_ui_def)
  from a b 1 2 show ?thesis by (intro conjI)
qed

text \<open>
  Claim C5 as stated fails on the settings that \<open>handleCardFormSubmit\<close> passes when none are
  loaded: \<open>manualCardProcessing\<close> is false and \<open>isEnabled\<close> is absent, so the first is not true
  and the second is not false, and yet the manual path is taken and the gateway is not
  invoked.
\<close>

theorem processCardPayment_manual_without_isEnabled:
  "manualCardProcessing fallback_settings \<noteq> Some True \<and>
   isEnabled fallback_settings \<noteq> Some False \<and>
   validateCardData example_card = None \<and>
   processCardPayment processManual processAutomatic detect_visa example_card
     (Some fallback_settings) example_ui =
   Returned \<lparr>isSubmitting = True, error = [], calls = [ProcessManual]\<rparr> \<and>
   handleCardFormSubmit processManual processAutomatic detect_visa None example_card example_ui =
   \<lparr>isSubmitting = True, error = [], calls = [ProcessManual]\<rparr>"
  using validateCardData_example_card
  by (simp add: handleCardFormSubmit_def processCardPayment_def fallback_settings_def truthy_def
      opt_chain_def processManual_def detect_visa_def example_ui_def Let_def)

subsection \<open>C6: release of a stuck attempt\<close>

text \<open>
  Claim C6 asks that the claim on the payment id of an attempt that never completes be
  released by the busy timeout, so that a fresh \<open>createOrder\<close> for the id proceeds. The
  timeout resets the flags of the instance only. Here an attempt for \<open>pay_1\<close> is admitted
  and never settles, so no cleanup is scheduled; the safety timeout runs and the flags are
  reset; a fresh \<open>createOrder\<close> for \<open>pay_1\<close>, by a function that has captured the reset
  state, is rejected, the id being still in the global map.
\<close>

theorem createOrder_blocked_after_safety_timeout:
  "fst (createOrder accept_customer fs checkout_init 0 False ''pay_1'') = InFlight \<and>
   cleanupTimers (snd (createOrder accept_customer fs checkout_init 0 False ''pay_1'')) = [] \<and>
   \<not> isProcessing (hooks (safety_timeout
       (snd (createOrder accept_customer fs checkout_init 0 False ''pay_1'')) 0) 0) \<and>
   \<not> processingRef (hooks (safety_timeout
       (snd (createOrder accept_customer fs checkout_init 0 False ''pay_1'')) 0) 0) \<and>
   fst (createOrder accept_customer fs
         (safety_timeout (snd (createOrder accept_customer fs checkout_init 0 False ''pay_1'')) 0)
         0 False ''pay_1'') = Rejected AlreadyProcessedGlobally"
  by (simp add: createOrder_def safety_timeout_def checkout_init_def accept_customer_def Let_def)

subsection \<open>C7: the first failing field\<close>

text \<open>
  Claim C7. For every card with at least one invalid field (a blank name, a number of fewer
  than 16 characters once the white space is removed, a month that does not parse to an
  integer from 1 to 12, a year that does not have 2 characters, a CVV that does not have 3
  characters or is 000), the processor reports one message: it sets the error to the
  message for the first invalid field in the order name, number, month, year, CVV, whatever
  the later fields are, changes nothing else and returns.
\<close>

theorem processCardPayment_reports_first_failing_field:
  assumes "name_fails cd \<or> number_fails cd \<or> month_fails cd \<or> year_fails cd \<or> cvv_fails cd"
  shows "\<exists>k m. first_failing_field cd = Some (k, m) \<and>
           processCardPayment manual automatic detect cd settings u = Returned (u\<lparr>error := m\<rparr>)"
proof -
  from assms have "validateCardData cd \<noteq> None" by (simp add: validateCardData_None_iff)
  then obtain errs where e: "validateCardData cd = Some errs" by auto
  from validateCardData_head [OF e] have ne: "errs \<noteq> []"
    and f: "first_failing_field cd = Some (hd errs)" by simp_all
  obtain k m where km: "hd errs = (k, m)" by (cases "hd errs")
  with f have m: "m \<noteq> []" by (auto dest: first_failing_field_msg)
  from ne km obtain rest where "errs = (k, m) # rest" by (cases errs) auto
  with m have "first_error errs = m" by (simp add: first_error_def obj_values_def)
  with e f km show ?thesis by (simp add: processCardPayment_def)
qed

text \<open>
  At a card with a blank name, a short number, month 13 and CVV 000 the name is reported;
  at a number of 15 digits with the other fields valid, the number; at CVV 000 with the
  other fields valid, the CVV.
\<close>

theorem processCardPayment_reports_first_failing_field_witness:
  "name_fails \<lparr>cardName = '' '', cardNumber = ''4111 1111 1111 111'', expiryMonth = ''13'',
      expiryYear = ''30'', cvv = ''000''\<rparr> \<and>
   processCardPayment processManual processAutomatic detect_visa
     \<lparr>cardName = '' '', cardNumber = ''4111 1111 1111 111'', expiryMonth = ''13'',
      expiryYear = ''30'', cvv = ''000''\<rparr> None example_ui =
     Returned (example_ui\<lparr>error := msg_cardName\<rparr>) \<and>
   number_fails \<lparr>cardName = ''Ana'', cardNumber = ''4111 1111 1111 111'', expiryMonth = ''12'',
      expiryYear = ''30'', cvv = ''123''\<rparr> \<and>
   processCardPayment processManual processAutomatic detect_visa
     \<lparr>cardName = ''Ana'', cardNumber = ''4111 1111 1111 111'', expiryMonth = ''12'',
      expiryYear = ''30'', cvv = ''123''\<rparr> None example_ui =
     Returned (example_ui\<lparr>error := msg_cardNumber\<rparr>) \<and>
   cvv_fails \<lparr>cardName = ''Ana'', cardNumber = ''4111 1111 1111 1111'', expiryMonth = ''12'',
      expiryYear = ''30'', cvv = ''000''\<rparr> \<and>
   processCardPayment processManual processAutomatic detect_visa
     \<lparr>cardName = ''Ana'', cardNumber = ''4111 1111 1111 1111'', expiryMonth = ''12'',
      expiryYear = ''30'', cvv = ''000''\<rparr> None example_ui =
     Returned (example_ui\<lparr>error := msg_cvv_zero\<rparr>)"
proof -
  let ?a = "\<lparr>cardName = '' '', cardNumber = ''4111 1111 1111 111'', expiryMonth = ''13'',
      expiryYear = ''30'', cvv = ''000''\<rparr>"
  let ?b = "\<lparr>cardName = ''Ana'', cardNumber = ''4111 1111 1111 111'', expiryMonth = ''12'',
      expiryYear = ''30'', cvv = ''123''\<rparr>"
  let ?c = "\<lparr>cardName = ''Ana'', cardNumber = ''4111 1111 1111 1111'', expiryMonth = ''12'',
      expiryYear = ''30'', cvv = ''000''\<rparr>"
  have month: "parseInt10 ''12'' = Some 12"
    by (simp add: parseInt10_def js_space_def is_digit_def digits_value_def digit_val_def)
  have a: "name_fails ?a" by (simp add: name_fails_def js_space_def)
  have b: "number_fails ?b" by (simp add: number_fails_def strip_whitespace_def js_space_def)
  have c: "cvv_fails ?c" by (simp add: cvv_fails_def)
  have fa: "first_failing_field ?a = Some (''cardName'', msg_cardName)"
    using a by (simp add: first_failing_field_def)
  have fb: "first_failing_field ?b = Some (''cardNumber'', msg_cardNumber)"
    using b by (simp add: first_failing_field_def name_fails_def js_space_def)
  have fc: "first_failing_field ?c = Some (''cvv'', msg_cvv_zero)"
    using c month
    by (simp add: first_failing_field_def name_fails_def number_fails_def month_fails_def
        year_fails_def strip_whitespace_def js_space_def)
  from a have a': "name_fails ?a \<or> number_fails ?a \<or> month_fails ?a \<or> year_fails ?a \<or> cvv_fails ?a"
    by (rule disjI1)
  from b have b': "name_fails ?b \<or> number_fails ?b \<or> month_fails ?b \<or> year_fails ?b \<or> cvv_fails ?b"
    by blast
  from c have c': "name_fails ?c \<or> number_fails ?c \<or> month_fails ?c \<or> year_fails ?c \<or> cvv_fails ?c"
    by blast
  from processCardPayment_reports_first_failing_field [OF a',
      of processManual processAutomatic detect_visa None example_ui] fa
  have 1: "processCardPayment processManual processAutomatic detect_visa ?a None example_ui =
      Returned (example_ui\<lparr>error := msg_cardName\<rparr>)"
    by auto
  from processCardPayment_reports_first_failing_field [OF b',
      of processManual processAutomatic detect_visa None example_ui] fb
  have 2: "processCardPayment processManual processAutomatic detect_visa ?b None example_ui =
      Returned (example_ui\<lparr>error := msg_cardNumber\<rparr>)"
    by auto
  from processCardPayment_reports_first_failing_field [OF c',
      of processManual processAutomatic detect_visa None example_ui] fc
  have 3: "processCardPayment processManual processAutomatic detect_visa ?c None example_ui =
      Returned (example_ui\<lparr>error := msg_cvv_zero\<rparr>)"
    by auto
  from a 1 b 2 c 3 show ?thesis by (intro conjI)
qed

subsection \<open>C8: digits of the customer data\<close>

text \<open>
  Claim C8, amended. For every form state, the customer data sent on has the postal code
  reduced to its digits when a street is given, and has no address, so no postal code,
  otherwise; the document id (CPF) is passed on as it was entered.
\<close>

theorem prepareCustomerData_strips_postal_code_only:
  "cust_cpf (prepareCustomerData fs) = cpf fs \<and>
   (case address (prepareCustomerData fs) of
      None \<Rightarrow> street fs = []
    | Some a \<Rightarrow> street fs \<noteq> [] \<and> postalCode a = filter is_digit (cep fs) \<and>
        list_all is_digit (postalCode a))"
  by (simp add: prepareCustomerData_def strip_non_digits_def list_all_iff)

text \<open>
  Claim C8 as stated fails: a CPF entered with its punctuation reaches the customer data
  with the punctuation.
\<close>

theorem prepareCustomerData_keeps_cpf_punctuation:
  "cust_cpf (prepareCustomerData example_form) = ''123.456.789-09'' \<and>
   \<not> list_all is_digit (cust_cpf (prepareCustomerData example_form))"
  by (simp add: prepareCustomerData_def example_form_def is_digit_def)

subsection \<open>C9: one call at a time per wrapper instance\<close>

text \<open>
  Claim C9. In every state that calls, ends of \<open>await\<close>s and reset callbacks lead to from
  the initial one, while a call of \<open>handleOrderCreation\<close> of an instance waits for
  \<open>createOrder\<close>, the flag of the instance is set, and every other call of that instance,
  whatever its payment id, is rejected and leaves the state as it is: \<open>createOrder\<close> is not
  invoked.
\<close>

theorem handleOrderCreation_single_flight:
  assumes "w = wrapper_run wrapper_init evs" and "0 < awaiting w i"
  shows "isProcessingRef (wrappers w i) \<and>
         (\<exists>e. handleOrderCreation w i pid st now = (Rejected e, w))"
proof -
  from assms(1) have "wrapper_inv w" by (simp add: wrapper_inv_run wrapper_inv_init)
  from wrapper_awaiting_flag [OF this assms(2)] have f: "isProcessingRef (wrappers w i)" by simp
  from handleOrderCreation_busy [OF f] f show ?thesis by simp
qed

theorem handleOrderCreation_single_flight_witness:
  "0 < awaiting (wrapper_run wrapper_init [HCall 0 ''pay_1'' Pending 5]) 0 \<and>
   fst (handleOrderCreation (wrapper_run wrapper_init [HCall 0 ''pay_1'' Pending 5]) 0
          ''pay_2'' Confirmed 6) = Rejected WrapperBusy \<and>
   createOrderCalls (snd (handleOrderCreation (wrapper_run wrapper_init [HCall 0 ''pay_1'' Pending 5])
          0 ''pay_2'' Confirmed 6)) = [(''pay_1'', Pending)]"
proof -
  let ?w = "wrapper_run wrapper_init [HCall 0 ''pay_1'' Pending 5]"
  have a: "0 < awaiting ?w 0"
    by (simp add: wrapper_run_def wrapper_init_def handleOrderCreation_def safePaymentId_def Let_def)
  from handleOrderCreation_single_flight [OF refl a, of "''pay_2''" Confirmed 6]
  obtain e where e: "handleOrderCreation ?w 0 ''pay_2'' Confirmed 6 = (Rejected e, ?w)" by blast
  have "fst (handleOrderCreation ?w 0 ''pay_2'' Confirmed 6) = Rejected WrapperBusy"
    by (simp add: wrapper_run_def wrapper_init_def handleOrderCreation_def safePaymentId_def Let_def)
  moreover from e have "createOrderCalls (snd (handleOrderCreation ?w 0 ''pay_2'' Confirmed 6)) =
      createOrderCalls ?w" by simp
  moreover have "createOrderCalls ?w = [(''pay_1'', Pending)]"
    by (simp add: wrapper_run_def wrapper_init_def handleOrderCreation_def safePaymentId_def Let_def)
  ultimately show ?thesis using a by simp
qed

subsection \<open>C10: masking a card number\<close>

text \<open>
  Claim C10 asks that \<open>maskCardNumber\<close>, which the source documents as masking the card
  number for safe display, replace every digit that has at least four more digits after it
  and keep the last four digits and the other characters in place. The pattern asks for
  four digits right after the digit. Here the number is grouped by spaces, as
  \<open>formatCardNumber\<close> writes it: its first twelve digits each have at least four digits
  after them, and none is masked.
\<close>

theorem maskCardNumber_grouped_number_unmasked:
  "maskCardNumber ''4111 1111 1111 1111'' = ''4111 1111 1111 1111'' \<and>
   spec_maskCardNumber ''4111 1111 1111 1111'' = ''**** **** **** 1111'' \<and>
   is_digit (''4111 1111 1111 1111'' ! 0) \<and>
   length (filter is_digit (drop 1 ''4111 1111 1111 1111'')) = 15"
  by (simp add: lookahead_digits_def is_digit_def)

end
